theory Spec2Isabelle
  imports Main "HOL-Library.Word"
begin

section \<open>JavaScript values and built-ins used by the file-question handler\<close>

text \<open>
  A JavaScript string is a sequence of UTF-16 code units: \<open>.length\<close>, \<open>.slice\<close> and
  \<open>.trim\<close> count and cut code units. A Node \<open>Buffer\<close> is a sequence of bytes.
  A value that may be \<open>undefined\<close> or \<open>null\<close> is an \<open>option\<close>.
\<close>

type_synonym byte = "8 word"
type_synonym cu = "16 word"
type_synonym jsstring = "cu list"

definition js :: "string \<Rightarrow> jsstring" where
  \<comment> \<open>an ASCII literal of the source as code units\<close>
  "js s = map (\<lambda>c. of_nat (of_char c)) s"

definition truthy :: "jsstring option \<Rightarrow> bool" where
  \<comment> \<open>truthiness of a string-or-undefined value: \<open>undefined\<close> and \<open>""\<close> are falsy\<close>
  "truthy v = (case v of None \<Rightarrow> False | Some s \<Rightarrow> s \<noteq> [])"

definition or_else :: "jsstring option \<Rightarrow> jsstring option \<Rightarrow> jsstring option" where
  \<comment> \<open>\<open>a || b\<close> on string-or-undefined values\<close>
  "or_else a b = (if truthy a then a else b)"

definition or_str :: "jsstring option \<Rightarrow> jsstring \<Rightarrow> jsstring" where
  \<comment> \<open>\<open>a || "literal"\<close>\<close>
  "or_str a d = (case a of None \<Rightarrow> d | Some s \<Rightarrow> if s = [] then d else s)"

definition template_str :: "jsstring option \<Rightarrow> jsstring" where
  \<comment> \<open>a string-or-undefined value inside a template literal\<close>
  "template_str a = (case a of None \<Rightarrow> js ''undefined'' | Some s \<Rightarrow> s)"

fun split_on :: "cu \<Rightarrow> jsstring \<Rightarrow> jsstring list" where
  \<comment> \<open>\<open>s.split(sep)\<close> for a one-character separator\<close>
  "split_on sep [] = [[]]"
| "split_on sep (c # cs) =
     (if c = sep then [] # split_on sep cs
      else (case split_on sep cs of
              w # ws \<Rightarrow> (c # w) # ws
            | [] \<Rightarrow> [[c]]))"

definition pop :: "jsstring list \<Rightarrow> jsstring option" where
  \<comment> \<open>\<open>Array.prototype.pop\<close>: the last element, \<open>undefined\<close> on an empty array\<close>
  "pop xs = (case rev xs of [] \<Rightarrow> None | x # _ \<Rightarrow> Some x)"

definition ascii_lower :: "cu \<Rightarrow> cu" where
  "ascii_lower c = (if 0x41 \<le> c \<and> c \<le> 0x5A then c + 0x20 else c)"

definition toLowerCase :: "(jsstring \<Rightarrow> jsstring) \<Rightarrow> jsstring \<Rightarrow> jsstring" where
  \<comment> \<open>\<open>String.prototype.toLowerCase\<close>. On a string of ASCII code units it lowers
      \<open>A\<close>..\<open>Z\<close>; the Unicode case mapping of any other string is the runtime's,
      taken as the parameter \<open>unicode_lower\<close>.\<close>
  "toLowerCase unicode_lower s =
     (if list_all (\<lambda>c. c < 0x80) s then map ascii_lower s else unicode_lower s)"

definition is_space :: "cu \<Rightarrow> bool" where
  \<comment> \<open>ECMAScript WhiteSpace and LineTerminator code points, as stripped by \<open>trim\<close>\<close>
  "is_space c =
     ((0x09 \<le> c \<and> c \<le> 0x0D) \<or> c = 0x20 \<or> c = 0xA0 \<or> c = 0x1680
      \<or> (0x2000 \<le> c \<and> c \<le> 0x200A) \<or> c = 0x2028 \<or> c = 0x2029 \<or> c = 0x202F
      \<or> c = 0x205F \<or> c = 0x3000 \<or> c = 0xFEFF)"

definition trim :: "jsstring \<Rightarrow> jsstring" where
  "trim s = rev (dropWhile is_space (rev (dropWhile is_space s)))"

definition slice0 :: "nat \<Rightarrow> 'a list \<Rightarrow> 'a list" where
  \<comment> \<open>\<open>s.slice(0, n)\<close> for a non-negative literal \<open>n\<close>\<close>
  "slice0 n s = take n s"

definition startsWith :: "jsstring \<Rightarrow> jsstring \<Rightarrow> bool" where
  \<comment> \<open>\<open>s.startsWith(p)\<close>\<close>
  "startsWith s p = (take (length p) s = p)"

fun join :: "jsstring \<Rightarrow> jsstring list \<Rightarrow> jsstring" where
  \<comment> \<open>\<open>Array.prototype.join\<close> on an array of strings\<close>
  "join sep [] = []"
| "join sep [x] = x"
| "join sep (x # y # ys) = x @ sep @ join sep (y # ys)"

fun decimal :: "nat \<Rightarrow> jsstring" where
  \<comment> \<open>a non-negative integer inside a template literal\<close>
  "decimal n =
     (if n < 10 then [of_nat (48 + n)]
      else decimal (n div 10) @ [of_nat (48 + n mod 10)])"

definition kilobytes_toFixed1 :: "nat \<Rightarrow> jsstring" where
  \<comment> \<open>\<open>(size / 1024).toFixed(1)\<close> for a byte count. Dividing an integer below
      \<open>2^53\<close> by \<open>1024\<close> is exact in a double; \<open>toFixed(1)\<close> takes the integer
      \<open>n\<close> with \<open>n / 10\<close> nearest to that quotient, the larger one on a tie, and
      prints it with one digit after the point.\<close>
  "kilobytes_toFixed1 bytes =
     (let n = (bytes * 10 + 512) div 1024
      in decimal (n div 10) @ js ''.'' @ decimal (n mod 10))"

subsection \<open>Buffer to string\<close>

text \<open>
  \<open>buffer.toString("utf8")\<close> decodes UTF-8, replacing every maximal ill-formed
  subsequence by U+FFFD; a code point above U+FFFF becomes a surrogate pair.
\<close>

definition cont :: "nat \<Rightarrow> nat \<Rightarrow> byte \<Rightarrow> bool" where
  "cont lo hi b = (lo \<le> unat b \<and> unat b \<le> hi)"

fun utf8_decode :: "byte list \<Rightarrow> nat list" where
  "utf8_decode [] = []"
| "utf8_decode (b # bs) =
     (if unat b < 0x80 then unat b # utf8_decode bs
      else if 0xC2 \<le> unat b \<and> unat b \<le> 0xDF then
        (case bs of
           [] \<Rightarrow> [0xFFFD]
         | c # r1 \<Rightarrow>
             if cont 0x80 0xBF c
             then ((unat b - 0xC0) * 64 + (unat c - 0x80)) # utf8_decode r1
             else 0xFFFD # utf8_decode bs)
      else if 0xE0 \<le> unat b \<and> unat b \<le> 0xEF then
        (case bs of
           [] \<Rightarrow> [0xFFFD]
         | c # r1 \<Rightarrow>
             if cont (if unat b = 0xE0 then 0xA0 else 0x80)
                     (if unat b = 0xED then 0x9F else 0xBF) c
             then (case r1 of
                     [] \<Rightarrow> [0xFFFD]
                   | d # r2 \<Rightarrow>
                       if cont 0x80 0xBF d
                       then ((unat b - 0xE0) * 4096 + (unat c - 0x80) * 64
                              + (unat d - 0x80)) # utf8_decode r2
                       else 0xFFFD # utf8_decode r1)
             else 0xFFFD # utf8_decode bs)
      else if 0xF0 \<le> unat b \<and> unat b \<le> 0xF4 then
        (case bs of
           [] \<Rightarrow> [0xFFFD]
         | c # r1 \<Rightarrow>
             if cont (if unat b = 0xF0 then 0x90 else 0x80)
                     (if unat b = 0xF4 then 0x8F else 0xBF) c
             then (case r1 of
                     [] \<Rightarrow> [0xFFFD]
                   | d # r2 \<Rightarrow>
                       if cont 0x80 0xBF d
                       then (case r2 of
                               [] \<Rightarrow> [0xFFFD]
                             | e # r3 \<Rightarrow>
                                 if cont 0x80 0xBF e
                                 then ((unat b - 0xF0) * 262144 + (unat c - 0x80) * 4096
                                        + (unat d - 0x80) * 64 + (unat e - 0x80))
                                      # utf8_decode r3
                                 else 0xFFFD # utf8_decode r2)
                       else 0xFFFD # utf8_decode r1)
             else 0xFFFD # utf8_decode bs)
      else 0xFFFD # utf8_decode bs)"

definition utf16 :: "nat \<Rightarrow> jsstring" where
  "utf16 cp =
     (if cp < 0x10000 then [of_nat cp]
      else [of_nat (0xD800 + (cp - 0x10000) div 1024),
            of_nat (0xDC00 + (cp - 0x10000) mod 1024)])"

definition toString_utf8 :: "byte list \<Rightarrow> jsstring" where
  "toString_utf8 bs = concat (map utf16 (utf8_decode bs))"

text \<open>\<open>buffer.toString("base64")\<close>: the standard alphabet with \<open>=\<close> padding.\<close>

definition base64_digit :: "nat \<Rightarrow> cu" where
  "base64_digit n =
     (if n < 26 then of_nat (65 + n)
      else if n < 52 then of_nat (97 + (n - 26))
      else if n < 62 then of_nat (48 + (n - 52))
      else if n = 62 then 0x2B else 0x2F)"

fun toString_base64 :: "byte list \<Rightarrow> jsstring" where
  "toString_base64 [] = []"
| "toString_base64 [a] =
     [base64_digit (unat a div 4), base64_digit ((unat a mod 4) * 16), 0x3D, 0x3D]"
| "toString_base64 [a, b] =
     [base64_digit (unat a div 4),
      base64_digit ((unat a mod 4) * 16 + unat b div 16),
      base64_digit ((unat b mod 16) * 4), 0x3D]"
| "toString_base64 (a # b # c # bs) =
     [base64_digit (unat a div 4),
      base64_digit ((unat a mod 4) * 16 + unat b div 16),
      base64_digit ((unat b mod 16) * 4 + unat c div 64),
      base64_digit (unat c mod 64)] @ toString_base64 bs"

section \<open>Data model and external collaborators\<close>

datatype js_error = JsError (message: "jsstring option")
  \<comment> \<open>a thrown value; the handler reads it only through \<open>.message\<close>\<close>

record uploaded_file =
  originalname :: "jsstring option"
  filename :: "jsstring option"
  buffer :: "byte list option"

record pdf_data =
  pdf_text :: "jsstring option"
  numpages :: "nat option"

record pdf_result =
  result_text :: jsstring
  isScanned :: bool
  pages :: nat
  info :: "jsstring option"

record 'ws workbook =
  SheetNames :: "jsstring list"
  Sheets :: "jsstring \<Rightarrow> 'ws option"

record parsed_result =
  ParsedText :: "jsstring option"

record ocr_data =
  ParsedResults :: "parsed_result option list option"
  ErrorMessage :: "jsstring option"

datatype fetch_response = FetchResponse (json: "js_error + ocr_data option")

record image_part =
  img_name :: jsstring
  mimeType :: jsstring
  img_data :: jsstring

datatype gemini_part = TextPart jsstring | InlineData jsstring jsstring

datatype candidate_part = CandidatePart (part_text: "jsstring option")
datatype candidate_content = CandidateContent (content_parts: "candidate_part option list option")
datatype candidate = Candidate (content: "candidate_content option")

record gemini_data =
  candidates :: "candidate option list option"

text \<open>
  The environment of one invocation: \<open>process.env\<close> and the libraries and services the
  handler calls. A call returns \<open>Inl\<close> when it throws or rejects.
\<close>

record 'ws env =
  OCR_SPACE_API_KEY :: "jsstring option"
  GEMINI_API_KEY :: "jsstring option"
  GEMINI_MODEL :: "jsstring option"
  pdfParse :: "byte list \<Rightarrow> js_error + pdf_data option"
  mammoth_extractRawText :: "byte list option \<Rightarrow> js_error + jsstring option"
  XLSX_read :: "byte list option \<Rightarrow> js_error + 'ws workbook"
  sheet_to_csv :: "'ws option \<Rightarrow> js_error + jsstring"
  Tesseract_recognize :: "byte list \<Rightarrow> js_error + jsstring option"
  fetch_ocr_space :: "jsstring \<Rightarrow> byte list \<Rightarrow> jsstring \<Rightarrow> js_error + fetch_response"
  axios_post :: "jsstring \<Rightarrow> gemini_part list \<Rightarrow> js_error + gemini_data option"
  unicode_lower :: "jsstring \<Rightarrow> jsstring"

section \<open>extractTextFromPdf\<close>

definition scanned_info :: jsstring where
  "scanned_info = js ''This appears to be a scanned PDF or image-based PDF. No text could be extracted automatically. Consider uploading as images instead for better analysis.''"

definition data_numpages :: "pdf_data option \<Rightarrow> nat" where
  \<comment> \<open>\<open>data?.numpages || 0\<close>\<close>
  "data_numpages data =
     (case data of None \<Rightarrow> 0
      | Some d \<Rightarrow> (case numpages d of None \<Rightarrow> 0 | Some n \<Rightarrow> n))"

definition pdf_try :: "'ws env \<Rightarrow> byte list option \<Rightarrow> js_error + pdf_result" where
  \<comment> \<open>the \<open>try\<close> block of \<open>extractTextFromPdf\<close>; \<open>data?.text?.length || 0\<close> is zero
      when \<open>data\<close> or \<open>data.text\<close> is missing or the text is empty\<close>
  "pdf_try env buf =
     (case buf of
        None \<Rightarrow> Inl (JsError (Some (js ''Empty or invalid buffer'')))
      | Some bs \<Rightarrow>
          if length bs = 0 then Inl (JsError (Some (js ''Empty or invalid buffer'')))
          else if \<not> startsWith (toString_utf8 (slice0 4 bs)) (js ''%PDF'')
          then Inl (JsError (Some (js ''File does not appear to be a valid PDF (missing %PDF header)'')))
          else
            (case pdfParse env bs of
               Inl err \<Rightarrow> Inl err
             | Inr data \<Rightarrow>
                 (case Option.bind data pdf_text of
                    None \<Rightarrow>
                      Inr \<lparr>result_text = [], isScanned = True, pages = data_numpages data,
                           info = Some scanned_info\<rparr>
                  | Some t \<Rightarrow>
                      if length t = 0
                      then Inr \<lparr>result_text = [], isScanned = True, pages = data_numpages data,
                                info = Some scanned_info\<rparr>
                      else Inr \<lparr>result_text = t, isScanned = False, pages = data_numpages data,
                                info = None\<rparr>)))"

definition extractTextFromPdf :: "'ws env \<Rightarrow> byte list option \<Rightarrow> js_error + pdf_result" where
  \<comment> \<open>the \<open>catch\<close> wraps whatever the \<open>try\<close> block threw\<close>
  "extractTextFromPdf env buf =
     (case pdf_try env buf of
        Inl err \<Rightarrow> Inl (JsError (Some (js ''PDF parsing failed: '' @ template_str (message err))))
      | Inr r \<Rightarrow> Inr r)"

section \<open>The OCR fallback chain: extractText and tesseractOcr\<close>

datatype ocr_call = HostedOcr jsstring "byte list" jsstring | LocalOcr "byte list"

type_synonym 'a traced = "ocr_call list \<times> (js_error + 'a)"
  \<comment> \<open>the calls made, in order, and the value returned or the error thrown\<close>

definition try_catch :: "'a traced \<Rightarrow> (js_error \<Rightarrow> 'a traced) \<Rightarrow> 'a traced" where
  "try_catch body handler =
     (case body of
        (calls, Inr v) \<Rightarrow> (calls, Inr v)
      | (calls, Inl err) \<Rightarrow> (case handler err of (calls', r) \<Rightarrow> (calls @ calls', r)))"

definition after_calls :: "ocr_call list \<Rightarrow> 'a traced \<Rightarrow> 'a traced" where
  "after_calls calls m = (case m of (calls', r) \<Rightarrow> (calls @ calls', r))"

definition tesseractOcr :: "'ws env \<Rightarrow> byte list \<Rightarrow> jsstring traced" where
  "tesseractOcr env buf =
     try_catch
       ([LocalOcr buf],
        case Tesseract_recognize env buf of
          Inl err \<Rightarrow> Inl err
        | Inr t \<Rightarrow> Inr (or_str t []))
       (\<lambda>err. ([], Inr []))"

definition parsed_text :: "ocr_data option \<Rightarrow> js_error + jsstring option" where
  \<comment> \<open>from the parsed JSON to the text returned (\<open>Some\<close>), or \<open>None\<close> when control
      falls through to the local engine; reading \<open>ParsedText\<close> of a \<open>null\<close> entry
      throws a TypeError; \<open>join\<close> prints a missing text as the empty string\<close>
  "parsed_text data =
     (case data of
        None \<Rightarrow> Inr None
      | Some d \<Rightarrow>
          (case ParsedResults d of
             None \<Rightarrow> Inr None
           | Some [] \<Rightarrow> Inr None
           | Some (None # rs) \<Rightarrow> Inr None
           | Some (Some r # rs) \<Rightarrow>
               if list_all (\<lambda>p. p \<noteq> None) rs
               then
                 (let t = join (js [CHR 0x0A])
                            (map (\<lambda>p. case p of None \<Rightarrow> []
                                        | Some q \<Rightarrow> or_str (ParsedText q) [])
                                 (Some r # rs))
                  in if t \<noteq> [] \<and> length (trim t) > 0 then Inr (Some t) else Inr None)
               else Inl (JsError (Some (js ''Cannot read properties of null (reading 'ParsedText')'')))))"

definition extractText :: "'ws env \<Rightarrow> byte list \<Rightarrow> jsstring \<Rightarrow> jsstring traced" where
  "extractText env buf fname =
     (case OCR_SPACE_API_KEY env of
        None \<Rightarrow> tesseractOcr env buf
      | Some apiKey \<Rightarrow>
          if apiKey = [] then tesseractOcr env buf
          else
            try_catch
              (after_calls [HostedOcr apiKey buf fname]
                 (case fetch_ocr_space env apiKey buf fname of
                    Inl err \<Rightarrow> ([], Inl err)
                  | Inr res \<Rightarrow>
                      (case json res of
                         Inl err \<Rightarrow> ([], Inl err)
                       | Inr data \<Rightarrow>
                           (case parsed_text data of
                              Inl err \<Rightarrow> ([], Inl err)
                            | Inr (Some t) \<Rightarrow> ([], Inr t)
                            | Inr None \<Rightarrow> tesseractOcr env buf))))
              (\<lambda>err. tesseractOcr env buf))"

section \<open>askWithFiles: the per-file loop\<close>

record part =
  p_name :: jsstring
  p_ext :: jsstring
  p_text :: jsstring
  p_size :: nat
  p_error :: "jsstring option"

definition file_name :: "uploaded_file \<Rightarrow> jsstring" where
  \<comment> \<open>\<open>f.originalname || f.filename || "file"\<close>\<close>
  "file_name f = or_str (or_else (originalname f) (filename f)) (js ''file'')"

definition file_ext :: "'ws env \<Rightarrow> uploaded_file \<Rightarrow> jsstring" where
  \<comment> \<open>\<open>(name.split(".").pop() || "").toLowerCase()\<close>\<close>
  "file_ext env f =
     toLowerCase (unicode_lower env) (or_str (pop (split_on 0x2E (file_name f))) [])"

definition file_size :: "uploaded_file \<Rightarrow> nat" where
  \<comment> \<open>\<open>f.buffer ? f.buffer.length : 0\<close>\<close>
  "file_size f = (case buffer f of None \<Rightarrow> 0 | Some bs \<Rightarrow> length bs)"

definition image_exts :: "jsstring list" where
  "image_exts = [js ''jpg'', js ''jpeg'', js ''png'', js ''webp'', js ''tif'', js ''tiff'',
                 js ''bmp'', js ''gif'']"

definition mimeTypes :: "(jsstring \<times> jsstring) list" where
  "mimeTypes =
     [(js ''jpg'', js ''image/jpeg''), (js ''jpeg'', js ''image/jpeg''),
      (js ''png'', js ''image/png''), (js ''webp'', js ''image/webp''),
      (js ''gif'', js ''image/gif''), (js ''tif'', js ''image/tiff''),
      (js ''tiff'', js ''image/tiff''), (js ''bmp'', js ''image/bmp'')]"

definition image_marker :: "jsstring \<Rightarrow> jsstring" where
  "image_marker name = js ''[Image: '' @ name @ js '' - will be analyzed by AI vision]''"

fun sheets_to_csv :: "'ws env \<Rightarrow> 'ws workbook \<Rightarrow> jsstring list \<Rightarrow> js_error + jsstring list" where
  \<comment> \<open>\<open>workbook.SheetNames.map((sheet) => XLSX.utils.sheet_to_csv(workbook.Sheets[sheet]))\<close>;
      the first sheet that throws ends the map\<close>
  "sheets_to_csv env wb [] = Inr []"
| "sheets_to_csv env wb (sheet # rest) =
     (case sheet_to_csv env (Sheets wb sheet) of
        Inl err \<Rightarrow> Inl err
      | Inr csv \<Rightarrow>
          (case sheets_to_csv env wb rest of
             Inl err \<Rightarrow> Inl err
           | Inr csvs \<Rightarrow> Inr (csv # csvs)))"

record extraction =
  ex_text :: jsstring
  ex_error :: "jsstring option"
  ex_isScanned :: bool
  ex_images :: "image_part list"

definition extract_try ::
  "'ws env \<Rightarrow> uploaded_file \<Rightarrow> jsstring \<Rightarrow> jsstring \<Rightarrow> js_error + extraction" where
  \<comment> \<open>the \<open>try\<close> block of the loop body: the values of \<open>text\<close>, \<open>extractionError\<close>
      and \<open>isScanned\<close> at its end and the image parts it pushed, or what it threw.
      In the image branch \<open>f.buffer.toString\<close> on a missing buffer throws a
      TypeError before anything is pushed.\<close>
  "extract_try env f name ext =
     (if ext = js ''pdf'' then
        (case extractTextFromPdf env (buffer f) of
           Inl err \<Rightarrow> Inl err
         | Inr pdfResult \<Rightarrow>
             Inr \<lparr>ex_text = result_text pdfResult,
                  ex_error = (if isScanned pdfResult then info pdfResult else None),
                  ex_isScanned = isScanned pdfResult, ex_images = []\<rparr>)
      else if ext = js ''docx'' then
        (case mammoth_extractRawText env (buffer f) of
           Inl err \<Rightarrow> Inl err
         | Inr v \<Rightarrow>
             Inr \<lparr>ex_text = or_str v [], ex_error = None, ex_isScanned = False,
                  ex_images = []\<rparr>)
      else if ext = js ''xlsx'' then
        (case XLSX_read env (buffer f) of
           Inl err \<Rightarrow> Inl err
         | Inr wb \<Rightarrow>
             (case sheets_to_csv env wb (SheetNames wb) of
                Inl err \<Rightarrow> Inl err
              | Inr csvs \<Rightarrow>
                  Inr \<lparr>ex_text = join (js [CHR 0x0A]) csvs, ex_error = None,
                       ex_isScanned = False, ex_images = []\<rparr>))
      else if ext = js ''txt'' \<or> ext = js ''html'' then
        (case buffer f of
           None \<Rightarrow> Inl (JsError (Some (js ''Empty or invalid buffer for text file'')))
         | Some bs \<Rightarrow>
             if length bs = 0
             then Inl (JsError (Some (js ''Empty or invalid buffer for text file'')))
             else Inr \<lparr>ex_text = toString_utf8 bs, ex_error = None, ex_isScanned = False,
                       ex_images = []\<rparr>)
      else if ext \<in> set image_exts then
        (case buffer f of
           None \<Rightarrow>
             Inl (JsError (Some (js ''Cannot read properties of undefined (reading 'toString')'')))
         | Some bs \<Rightarrow>
             Inr \<lparr>ex_text = image_marker name, ex_error = None, ex_isScanned = False,
                  ex_images =
                    [\<lparr>img_name = name,
                      mimeType = or_str (map_of mimeTypes ext) (js ''image/jpeg''),
                      img_data = toString_base64 bs\<rparr>]\<rparr>)
      else
        Inr \<lparr>ex_text = [], ex_error = None, ex_isScanned = False, ex_images = []\<rparr>)"

definition process_file :: "'ws env \<Rightarrow> uploaded_file \<Rightarrow> part \<times> image_part list" where
  \<comment> \<open>one iteration of the loop: the record pushed onto \<open>parts\<close> and the entries
      pushed onto \<open>imageParts\<close>; the \<open>catch\<close> records the message and empties the text\<close>
  "process_file env f =
     (let name = file_name f;
          ext = file_ext env f;
          size = file_size f;
          ex = (case extract_try env f name ext of
                  Inl err \<Rightarrow>
                    \<lparr>ex_text = [], ex_error = message err, ex_isScanned = False,
                     ex_images = []\<rparr>
                | Inr e \<Rightarrow> e)
      in (\<lparr>p_name = name, p_ext = ext, p_text = ex_text ex, p_size = size,
           p_error = ex_error ex\<rparr>,
          ex_images ex))"

fun process_files ::
  "'ws env \<Rightarrow> part list \<times> image_part list \<Rightarrow> uploaded_file list
     \<Rightarrow> part list \<times> image_part list" where
  \<comment> \<open>\<open>for (const f of files)\<close> with the arrays \<open>parts\<close> and \<open>imageParts\<close> as state\<close>
  "process_files env (parts, imageParts) [] = (parts, imageParts)"
| "process_files env (parts, imageParts) (f # fs) =
     (case process_file env f of
        (p, imgs) \<Rightarrow> process_files env (parts @ [p], imageParts @ imgs) fs)"

definition extraction_records :: "'ws env \<Rightarrow> uploaded_file list \<Rightarrow> part list" where
  \<comment> \<open>the array \<open>parts\<close> after the loop\<close>
  "extraction_records env fs = fst (process_files env ([], []) fs)"

definition image_parts :: "'ws env \<Rightarrow> uploaded_file list \<Rightarrow> image_part list" where
  \<comment> \<open>the array \<open>imageParts\<close> after the loop\<close>
  "image_parts env fs = snd (process_files env ([], []) fs)"

section \<open>askWithFiles: aggregation and answer\<close>

definition retained :: "part \<Rightarrow> bool" where
  \<comment> \<open>\<open>p.text && p.text.trim().length > 0\<close>\<close>
  "retained p = (p_text p \<noteq> [] \<and> length (trim (p_text p)) > 0)"

definition segment :: "part \<Rightarrow> jsstring" where
  "segment p =
     js ''--- '' @ p_name p @ js '' ('' @ p_ext p @ js '') ---'' @ js [CHR 0x0A]
       @ slice0 20000 (p_text p)"

definition combined_text :: "part list \<Rightarrow> jsstring" where
  "combined_text parts = join (js [CHR 0x0A, CHR 0x0A]) (map segment (filter retained parts))"

record file_entry =
  f_name :: jsstring
  f_type :: jsstring
  f_size :: nat
  f_textLength :: nat
  f_error :: "jsstring option"

definition file_entry_of :: "part \<Rightarrow> file_entry" where
  \<comment> \<open>\<open>textLength: p.text ? p.text.length : 0\<close>, \<open>error: p.error || null\<close>\<close>
  "file_entry_of p =
     \<lparr>f_name = p_name p, f_type = p_ext p, f_size = p_size p,
      f_textLength = (if p_text p \<noteq> [] then length (p_text p) else 0),
      f_error = or_else (p_error p) None\<rparr>"

record response =
  extracted :: jsstring
  answer :: "jsstring option"
  files :: "file_entry list"
  error :: "jsstring option"

datatype http_result =
    Ok200 response
  | BadRequest400 jsstring
  | ServerError500 jsstring "jsstring option"

record request =
  req_files :: "uploaded_file list option"
  question :: "jsstring option"

definition uploaded :: "request \<Rightarrow> uploaded_file list" where
  \<comment> \<open>\<open>req.files || []\<close>\<close>
  "uploaded req = (case req_files req of None \<Rightarrow> [] | Some l \<Rightarrow> l)"

definition hasContent :: "jsstring \<Rightarrow> image_part list \<Rightarrow> bool" where
  "hasContent combined imageParts = (length (trim combined) > 0 \<or> length imageParts > 0)"

definition errorDetails :: "part list \<Rightarrow> jsstring" where
  "errorDetails parts =
     join (js ''; '')
       (map (\<lambda>p. p_name p @ js '': '' @ or_str (p_error p) (js ''Unknown error'')) parts)"

definition analysis_line :: "part \<Rightarrow> jsstring" where
  \<comment> \<open>the template reads \<open>p.type\<close>, a property the records of \<open>parts\<close> do not
      have (they carry \<open>ext\<close>), so it prints \<open>undefined\<close>\<close>
  "analysis_line p =
     [0x2022] @ js '' '' @ p_name p @ js '' ('' @ template_str None @ js '', ''
       @ kilobytes_toFixed1 (p_size p) @ js ''KB): ''
       @ or_str (p_error p) (js ''No text found'')"

definition diagnostic_answer :: "part list \<Rightarrow> jsstring" where
  "diagnostic_answer parts =
     js ''I couldn't extract any readable content from the uploaded files. This might be because:''
     @ js [CHR 0x0A, CHR 0x0A]
     @ js ''1. **Scanned PDF**: The PDF contains images/scans rather than selectable text''
     @ js [CHR 0x0A]
     @ js ''2. **Encrypted PDF**: The PDF is password protected or encrypted''
     @ js [CHR 0x0A]
     @ js ''3. **Corrupted file**: The file may be damaged''
     @ js [CHR 0x0A]
     @ js ''4. **Unsupported format**: The file format isn't supported for text extraction''
     @ js [CHR 0x0A, CHR 0x0A]
     @ js ''File analysis:''
     @ js [CHR 0x0A]
     @ join (js [CHR 0x0A]) (map analysis_line parts)
     @ js [CHR 0x0A, CHR 0x0A]
     @ js ''For scanned PDFs, you might need to use OCR (Optical Character Recognition) tools to extract the text first.''"

datatype prompt_mode = ImageOnly | Mixed | TextOnly | NoIntro

definition prompt_mode_of :: "image_part list \<Rightarrow> jsstring \<Rightarrow> prompt_mode" where
  \<comment> \<open>the conditions of the \<open>if\<close> chain that chooses the opening of the prompt\<close>
  "prompt_mode_of imageParts combined =
     (if length imageParts > 0 \<and> trim combined = [] then ImageOnly
      else if length imageParts > 0 \<and> trim combined \<noteq> [] then Mixed
      else if trim combined \<noteq> [] then TextOnly
      else NoIntro)"

definition prompt_intro :: "prompt_mode \<Rightarrow> image_part list \<Rightarrow> jsstring \<Rightarrow> jsstring" where
  "prompt_intro mode imageParts combined =
     (case mode of
        ImageOnly \<Rightarrow>
          js ''I have uploaded '' @ decimal (length imageParts)
          @ js '' image(s) for analysis. Please examine them carefully and answer my question.''
          @ js [CHR 0x0A, CHR 0x0A]
      | Mixed \<Rightarrow>
          js ''I have uploaded files with both text and images:'' @ js [CHR 0x0A, CHR 0x0A]
          @ combined @ js [CHR 0x0A, CHR 0x0A]
          @ js ''I have also uploaded '' @ decimal (length imageParts)
          @ js '' image(s). Please analyze everything carefully.'' @ js [CHR 0x0A, CHR 0x0A]
      | TextOnly \<Rightarrow>
          js ''I have uploaded the following files with extracted text:''
          @ js [CHR 0x0A, CHR 0x0A] @ combined @ js [CHR 0x0A, CHR 0x0A]
      | NoIntro \<Rightarrow> [])"

definition promptText :: "image_part list \<Rightarrow> jsstring \<Rightarrow> jsstring \<Rightarrow> jsstring" where
  "promptText imageParts combined q =
     prompt_intro (prompt_mode_of imageParts combined) imageParts combined
     @ js ''Question: '' @ q @ js [CHR 0x0A, CHR 0x0A]
     @ js ''Please provide a detailed and accurate answer based on the uploaded content. For math problems in images, transcribe the problem first, then show step-by-step solutions with proper formatting. For images with diagrams or handwriting, describe what you see before answering.''"

definition geminiParts :: "image_part list \<Rightarrow> jsstring \<Rightarrow> jsstring \<Rightarrow> gemini_part list" where
  "geminiParts imageParts combined q =
     TextPart (promptText imageParts combined q)
       # map (\<lambda>img. InlineData (mimeType img) (img_data img)) imageParts"

definition endpoint :: "'ws env \<Rightarrow> jsstring \<Rightarrow> jsstring" where
  "endpoint env geminiKey =
     js ''https://generativelanguage.googleapis.com/v1beta/models/''
     @ or_str (GEMINI_MODEL env) (js ''gemini-2.5-flash'')
     @ js '':generateContent?key='' @ geminiKey"

definition first_of :: "'a option list \<Rightarrow> 'a option" where
  \<comment> \<open>\<open>xs?.[0]\<close> on an array whose entries may be \<open>null\<close>\<close>
  "first_of xs = (case xs of [] \<Rightarrow> None | x # _ \<Rightarrow> x)"

definition textResp :: "gemini_data option \<Rightarrow> jsstring option" where
  \<comment> \<open>\<open>data?.candidates?.[0]?.content?.parts?.[0]?.text || null\<close>\<close>
  "textResp data =
     or_else
       (Option.bind data (\<lambda>d.
        Option.bind (candidates d) (\<lambda>cs.
        Option.bind (first_of cs) (\<lambda>c.
        Option.bind (content c) (\<lambda>ct.
        Option.bind (content_parts ct) (\<lambda>ps.
        Option.bind (first_of ps) part_text))))))
       None"

type_synonym gemini_call = "jsstring \<times> gemini_part list"

definition askWithFiles :: "'ws env \<Rightarrow> request \<Rightarrow> gemini_call list \<times> http_result" where
  \<comment> \<open>the requests posted to the answering service, in order, and the response sent\<close>
  "askWithFiles env req =
     (let fs = uploaded req;
          q = or_str (question req) []
      in if length fs = 0 then ([], BadRequest400 (js ''No files uploaded''))
         else
           (case process_files env ([], []) fs of
              (parts, imageParts) \<Rightarrow>
                (let combined = combined_text parts;
                     resp = \<lparr>extracted = combined, answer = None,
                             files = map file_entry_of parts, error = None\<rparr>
                 in case GEMINI_API_KEY env of
                      None \<Rightarrow> ([], Ok200 resp)
                    | Some geminiKey \<Rightarrow>
                        if geminiKey = [] then ([], Ok200 resp)
                        else if \<not> hasContent combined imageParts then
                          ([], Ok200 (resp
                                 \<lparr>error := Some (js ''No content could be extracted from the uploaded files. Details: ''
                                                  @ errorDetails parts),
                                  answer := Some (diagnostic_answer parts)\<rparr>))
                        else
                          (case axios_post env (endpoint env geminiKey)
                                  (geminiParts imageParts combined q) of
                             Inl err \<Rightarrow>
                               ([(endpoint env geminiKey, geminiParts imageParts combined q)],
                                ServerError500 (js ''Failed to process files'') (message err))
                           | Inr data \<Rightarrow>
                               ([(endpoint env geminiKey, geminiParts imageParts combined q)],
                                Ok200 (resp\<lparr>answer := textResp data\<rparr>))))))"

section \<open>Example inputs\<close>

definition ascii_bytes :: "string \<Rightarrow> byte list" where
  \<comment> \<open>the bytes of an ASCII text\<close>
  "ascii_bytes s = map (\<lambda>c. of_nat (of_char c)) s"

definition offline_env :: "unit env" where
  \<comment> \<open>no credential configured; every library call and service call fails\<close>
  "offline_env =
     \<lparr>OCR_SPACE_API_KEY = None, GEMINI_API_KEY = None, GEMINI_MODEL = None,
      pdfParse = (\<lambda>bs. Inl (JsError (Some (js ''bad XRef entry'')))),
      mammoth_extractRawText = (\<lambda>b. Inl (JsError (Some (js ''not a zip file'')))),
      XLSX_read = (\<lambda>b. Inl (JsError (Some (js ''unsupported file'')))),
      sheet_to_csv = (\<lambda>ws. Inl (JsError None)),
      Tesseract_recognize = (\<lambda>bs. Inl (JsError (Some (js ''worker failed'')))),
      fetch_ocr_space = (\<lambda>k bs n. Inl (JsError (Some (js ''ECONNREFUSED'')))),
      axios_post = (\<lambda>url body. Inl (JsError (Some (js ''Request failed with status code 503'')))),
      unicode_lower = (\<lambda>s. s)\<rparr>"

definition hello_file :: uploaded_file where
  "hello_file =
     \<lparr>originalname = Some (js ''file.txt''), filename = None,
      buffer = Some (ascii_bytes ''hello world'')\<rparr>"

definition hello_request :: request where
  "hello_request =
     \<lparr>req_files = Some [hello_file], question = Some (js ''what does this say?'')\<rparr>"

definition broken_pdf_file :: uploaded_file where
  \<comment> \<open>named \<open>.pdf\<close>, but the bytes do not start with the PDF signature\<close>
  "broken_pdf_file =
     \<lparr>originalname = Some (js ''report.pdf''), filename = None,
      buffer = Some (ascii_bytes ''<html>'')\<rparr>"

definition two_file_request :: request where
  "two_file_request =
     \<lparr>req_files = Some [broken_pdf_file, hello_file], question = Some (js ''summarise'')\<rparr>"

definition broken_pdf_message :: jsstring where
  "broken_pdf_message =
     js ''PDF parsing failed: File does not appear to be a valid PDF (missing %PDF header)''"

definition two_file_response :: response where
  "two_file_response =
     \<lparr>extracted = js ''--- file.txt (txt) ---'' @ js [CHR 0x0A] @ js ''hello world'',
      answer = None,
      files = [\<lparr>f_name = js ''report.pdf'', f_type = js ''pdf'', f_size = 6,
                f_textLength = 0, f_error = Some broken_pdf_message\<rparr>,
               \<lparr>f_name = js ''file.txt'', f_type = js ''txt'', f_size = 11,
                f_textLength = 11, f_error = None\<rparr>],
      error = None\<rparr>"

definition hello_part :: part where
  "hello_part =
     \<lparr>p_name = js ''file.txt'', p_ext = js ''txt'', p_text = js ''hello world'',
      p_size = 11, p_error = None\<rparr>"

definition broken_pdf_part :: part where
  "broken_pdf_part =
     \<lparr>p_name = js ''report.pdf'', p_ext = js ''pdf'', p_text = [], p_size = 6,
      p_error = Some broken_pdf_message\<rparr>"

definition broken_pdf_request :: request where
  "broken_pdf_request = \<lparr>req_files = Some [broken_pdf_file], question = Some (js ''summarise'')\<rparr>"

definition keyed_env :: "unit env" where
  \<comment> \<open>a credential for the answering service is configured\<close>
  "keyed_env = offline_env\<lparr>GEMINI_API_KEY := Some (js ''test-key'')\<rparr>"

definition scanned_env :: "unit env" where
  \<comment> \<open>the PDF parser succeeds and finds three pages without text\<close>
  "scanned_env =
     offline_env\<lparr>pdfParse := (\<lambda>bs. Inr (Some \<lparr>pdf_text = Some [], numpages = Some 3\<rparr>))\<rparr>"

definition scanned_pdf_file :: uploaded_file where
  "scanned_pdf_file =
     \<lparr>originalname = Some (js ''scan.pdf''), filename = None,
      buffer = Some (ascii_bytes ''%PDF-1.4'')\<rparr>"

definition scanned_request :: request where
  "scanned_request = \<lparr>req_files = Some [scanned_pdf_file], question = None\<rparr>"

definition scanned_response :: response where
  "scanned_response =
     \<lparr>extracted = [], answer = None,
      files = [\<lparr>f_name = js ''scan.pdf'', f_type = js ''pdf'', f_size = 8, f_textLength = 0,
                f_error = Some scanned_info\<rparr>],
      error = None\<rparr>"

definition blank_file :: uploaded_file where
  \<comment> \<open>a text file that holds one space\<close>
  "blank_file =
     \<lparr>originalname = Some (js ''blank.txt''), filename = None, buffer = Some [0x20]\<rparr>"

definition blank_part :: part where
  "blank_part =
     \<lparr>p_name = js ''blank.txt'', p_ext = js ''txt'', p_text = js '' '', p_size = 1,
      p_error = None\<rparr>"

definition photo_file :: uploaded_file where
  "photo_file =
     \<lparr>originalname = Some (js ''photo.png''), filename = None,
      buffer = Some [0x89, 0x50, 0x4E, 0x47]\<rparr>"

definition photo_without_buffer :: uploaded_file where
  \<comment> \<open>an upload object that carries no \<open>buffer\<close> property\<close>
  "photo_without_buffer =
     \<lparr>originalname = Some (js ''photo.png''), filename = None, buffer = None\<rparr>"

definition hosted_down_env :: "unit env" where
  \<comment> \<open>a hosted OCR credential is configured, the service is unreachable, the local
      engine reads the image\<close>
  "hosted_down_env =
     offline_env\<lparr>OCR_SPACE_API_KEY := Some (js ''K81''),
                 Tesseract_recognize := (\<lambda>bs. Inr (Some (js ''local text'')))\<rparr>"

definition blank_ocr_env :: "unit env" where
  \<comment> \<open>the hosted OCR service answers with one parsed result whose text is a single
      space; the local engine reads the image\<close>
  "blank_ocr_env =
     hosted_down_env
       \<lparr>fetch_ocr_space :=
          (\<lambda>k bs n. Inr (FetchResponse
             (Inr (Some \<lparr>ParsedResults = Some [Some \<lparr>ParsedText = Some (js '' '')\<rparr>],
                         ErrorMessage = None\<rparr>))))\<rparr>"

definition null_entry_ocr_env :: "unit env" where
  \<comment> \<open>the hosted OCR service answers with a text and a \<open>null\<close> entry after it\<close>
  "null_entry_ocr_env =
     hosted_down_env
       \<lparr>fetch_ocr_space :=
          (\<lambda>k bs n. Inr (FetchResponse
             (Inr (Some \<lparr>ParsedResults = Some [Some \<lparr>ParsedText = Some (js ''page one'')\<rparr>, None],
                         ErrorMessage = None\<rparr>))))\<rparr>"

definition hosted_ok_env :: "unit env" where
  \<comment> \<open>the hosted OCR service reads two pages\<close>
  "hosted_ok_env =
     hosted_down_env
       \<lparr>fetch_ocr_space :=
          (\<lambda>k bs n. Inr (FetchResponse
             (Inr (Some \<lparr>ParsedResults = Some [Some \<lparr>ParsedText = Some (js ''page one'')\<rparr>,
                                                  Some \<lparr>ParsedText = Some (js ''page two'')\<rparr>],
                         ErrorMessage = None\<rparr>))))\<rparr>"

definition long_part :: part where
  \<comment> \<open>a record whose text is longer than the budget of one segment\<close>
  "long_part =
     \<lparr>p_name = js ''big.txt'', p_ext = js ''txt'', p_text = replicate 25000 0x61,
      p_size = 25000, p_error = None\<rparr>"

section \<open>The loop as a map over the uploaded files\<close>

lemma process_files_acc:
  "process_files env (ps, is) fs =
     (ps @ map (\<lambda>f. fst (process_file env f)) fs,
      is @ concat (map (\<lambda>f. snd (process_file env f)) fs))"
  by (induction fs arbitrary: ps "is") (auto split: prod.splits)

lemma extraction_records_map:
  "extraction_records env fs = map (\<lambda>f. fst (process_file env f)) fs"
  by (simp add: extraction_records_def process_files_acc)

lemma image_parts_concat:
  "image_parts env fs = concat (map (\<lambda>f. snd (process_file env f)) fs)"
  by (simp add: image_parts_def process_files_acc)

lemma process_files_start:
  "process_files env ([], []) fs = (extraction_records env fs, image_parts env fs)"
  by (simp add: extraction_records_def image_parts_def)

lemma file_entry_of_process_file:
  "f_name (file_entry_of (fst (process_file env f))) = file_name f"
  "f_type (file_entry_of (fst (process_file env f))) = file_ext env f"
  "f_size (file_entry_of (fst (process_file env f))) = file_size f"
  by (simp_all add: file_entry_of_def process_file_def Let_def)

section \<open>The responses of askWithFiles\<close>

lemma askWithFiles_Ok200:
  assumes "askWithFiles env req = (calls, Ok200 r)"
  shows "files r = map file_entry_of (extraction_records env (uploaded req))"
    and "extracted r = combined_text (extraction_records env (uploaded req))"
    and "uploaded req \<noteq> []"
  using assms
  by (auto simp: askWithFiles_def Let_def process_files_start
           split: option.splits if_splits sum.splits)

lemma askWithFiles_no_key:
  assumes "\<not> truthy (GEMINI_API_KEY env)" and "uploaded req \<noteq> []"
  shows "askWithFiles env req =
           ([], Ok200 \<lparr>extracted = combined_text (extraction_records env (uploaded req)),
                       answer = None,
                       files = map file_entry_of (extraction_records env (uploaded req)),
                       error = None\<rparr>)"
  using assms
  by (auto simp: askWithFiles_def Let_def process_files_start truthy_def
           split: option.splits)

lemma askWithFiles_no_key_calls:
  assumes "\<not> truthy (GEMINI_API_KEY env)"
  shows "fst (askWithFiles env req) = []"
  using assms
  by (auto simp: askWithFiles_def Let_def truthy_def split: option.splits prod.splits)

section \<open>Two worked uploads\<close>

lemma offline_no_key: "\<not> truthy (GEMINI_API_KEY offline_env)"
  by (simp add: offline_env_def truthy_def)

lemma hello_record: "process_file env hello_file = (hello_part, [])"
  by (simp add: process_file_def hello_file_def file_name_def file_ext_def file_size_def
      or_else_def or_str_def truthy_def js_def pop_def toLowerCase_def ascii_lower_def
      extract_try_def ascii_bytes_def toString_utf8_def utf16_def Let_def hello_part_def)

lemma hello_entry:
  "file_entry_of hello_part
   = \<lparr>f_name = js ''file.txt'', f_type = js ''txt'', f_size = 11, f_textLength = 11,
      f_error = None\<rparr>"
  by (simp add: file_entry_of_def or_else_def truthy_def js_def hello_part_def)

lemma hello_combined:
  "combined_text [hello_part]
   = js ''--- file.txt (txt) ---'' @ js [CHR 0x0A] @ js ''hello world''"
  by (simp add: combined_text_def retained_def segment_def trim_def is_space_def js_def
      slice0_def hello_part_def)

lemma broken_pdf_record: "process_file env broken_pdf_file = (broken_pdf_part, [])"
  by (simp add: process_file_def broken_pdf_file_def file_name_def file_ext_def file_size_def
      or_else_def or_str_def truthy_def js_def pop_def toLowerCase_def ascii_lower_def
      extract_try_def extractTextFromPdf_def pdf_try_def startsWith_def slice0_def
      ascii_bytes_def toString_utf8_def utf16_def Let_def broken_pdf_message_def
      template_str_def broken_pdf_part_def)

lemma broken_pdf_entry:
  "file_entry_of broken_pdf_part
   = \<lparr>f_name = js ''report.pdf'', f_type = js ''pdf'', f_size = 6, f_textLength = 0,
      f_error = Some broken_pdf_message\<rparr>"
  by (simp add: file_entry_of_def or_else_def truthy_def js_def broken_pdf_part_def
      broken_pdf_message_def)

lemma broken_pdf_not_retained: "\<not> retained broken_pdf_part"
  by (simp add: retained_def broken_pdf_part_def)

lemma two_file_eval:
  "askWithFiles offline_env two_file_request = ([], Ok200 two_file_response)"
proof -
  have up: "uploaded two_file_request = [broken_pdf_file, hello_file]"
    by (simp add: uploaded_def two_file_request_def)
  have recs:
    "extraction_records offline_env (uploaded two_file_request) = [broken_pdf_part, hello_part]"
    by (simp add: up extraction_records_map hello_record broken_pdf_record)
  have c: "combined_text [broken_pdf_part, hello_part] = combined_text [hello_part]"
    by (simp add: combined_text_def broken_pdf_not_retained)
  have "askWithFiles offline_env two_file_request =
          ([], Ok200 \<lparr>extracted = combined_text [broken_pdf_part, hello_part],
                      answer = None,
                      files = map file_entry_of [broken_pdf_part, hello_part],
                      error = None\<rparr>)"
    using askWithFiles_no_key[OF offline_no_key, of two_file_request]
    unfolding recs by (simp add: up)
  then show ?thesis
    by (simp add: c hello_combined hello_entry broken_pdf_entry two_file_response_def)
qed

section \<open>One entry per uploaded file, in upload order\<close>

text \<open>
  Claim C1. Whenever askWithFiles answers with a response that carries a \<open>files\<close>
  array, that array has exactly one entry per uploaded file and entry \<open>i\<close> is the
  summary of the record extracted from upload \<open>i\<close>: its name, its lower-cased
  extension and its byte size are those of upload \<open>i\<close>.
\<close>

theorem C1_files_one_entry_per_upload:
  assumes "askWithFiles env req = (calls, Ok200 r)"
  shows "length (files r) = length (uploaded req) \<and>
         (\<forall>i < length (uploaded req).
            files r ! i = file_entry_of (fst (process_file env (uploaded req ! i))) \<and>
            f_name (files r ! i) = file_name (uploaded req ! i) \<and>
            f_type (files r ! i) = file_ext env (uploaded req ! i) \<and>
            f_size (files r ! i) = file_size (uploaded req ! i))"
  using askWithFiles_Ok200(1)[OF assms]
  by (simp add: extraction_records_map file_entry_of_process_file)

theorem C1_witness:
  "askWithFiles offline_env two_file_request = ([], Ok200 two_file_response) \<and>
   uploaded two_file_request = [broken_pdf_file, hello_file] \<and>
   length (files two_file_response) = 2 \<and>
   f_name (files two_file_response ! 0) = file_name broken_pdf_file \<and>
   f_type (files two_file_response ! 0) = file_ext offline_env broken_pdf_file \<and>
   f_size (files two_file_response ! 0) = file_size broken_pdf_file \<and>
   f_name (files two_file_response ! 1) = file_name hello_file \<and>
   f_type (files two_file_response ! 1) = file_ext offline_env hello_file \<and>
   f_size (files two_file_response ! 1) = file_size hello_file"
proof -
  note c1 = C1_files_one_entry_per_upload[OF two_file_eval]
  have up: "uploaded two_file_request = [broken_pdf_file, hello_file]"
    by (simp add: uploaded_def two_file_request_def)
  from c1 have len: "length (files two_file_response) = 2"
    by (simp add: up)
  have i0: "0 < length (uploaded two_file_request)" and i1: "1 < length (uploaded two_file_request)"
    by (simp_all add: up)
  from c1 i0 have
    "f_name (files two_file_response ! 0) = file_name (uploaded two_file_request ! 0) \<and>
     f_type (files two_file_response ! 0) = file_ext offline_env (uploaded two_file_request ! 0) \<and>
     f_size (files two_file_response ! 0) = file_size (uploaded two_file_request ! 0)"
    by blast
  then have p0:
    "f_name (files two_file_response ! 0) = file_name broken_pdf_file \<and>
     f_type (files two_file_response ! 0) = file_ext offline_env broken_pdf_file \<and>
     f_size (files two_file_response ! 0) = file_size broken_pdf_file"
    by (simp add: up)
  from c1 i1 have
    "f_name (files two_file_response ! 1) = file_name (uploaded two_file_request ! 1) \<and>
     f_type (files two_file_response ! 1) = file_ext offline_env (uploaded two_file_request ! 1) \<and>
     f_size (files two_file_response ! 1) = file_size (uploaded two_file_request ! 1)"
    by blast
  then have p1:
    "f_name (files two_file_response ! 1) = file_name hello_file \<and>
     f_type (files two_file_response ! 1) = file_ext offline_env hello_file \<and>
     f_size (files two_file_response ! 1) = file_size hello_file"
    by (simp add: up)
  from p0 p1 two_file_eval up len show ?thesis by blast
qed

section \<open>The extraction-only response\<close>

text \<open>
  Claim C5. When no credential for the answering service is configured (the variable
  is unset or empty), askWithFiles posts nothing to the answering service; the
  response it sends for an upload has a null \<open>answer\<close> and its \<open>extracted\<close> field
  is the aggregated text of the extraction records; and every request with at least
  one file gets such a response.
\<close>

theorem C5_no_credential_extraction_only:
  assumes "\<not> truthy (GEMINI_API_KEY env)"
  shows "fst (askWithFiles env req) = [] \<and>
         (\<forall>r. snd (askWithFiles env req) = Ok200 r \<longrightarrow>
            answer r = None \<and>
            extracted r = combined_text (extraction_records env (uploaded req))) \<and>
         (uploaded req \<noteq> [] \<longrightarrow> (\<exists>r. snd (askWithFiles env req) = Ok200 r))"
proof (cases "uploaded req = []")
  case True
  then have "snd (askWithFiles env req) = BadRequest400 (js ''No files uploaded'')"
    by (simp add: askWithFiles_def)
  with True askWithFiles_no_key_calls[OF assms] show ?thesis by simp
next
  case False
  from askWithFiles_no_key[OF assms False] False show ?thesis by simp
qed

theorem C5_witness:
  "\<not> truthy (GEMINI_API_KEY offline_env) \<and>
   uploaded two_file_request \<noteq> [] \<and>
   fst (askWithFiles offline_env two_file_request) = [] \<and>
   snd (askWithFiles offline_env two_file_request) = Ok200 two_file_response \<and>
   answer two_file_response = None \<and>
   extracted two_file_response
     = combined_text (extraction_records offline_env (uploaded two_file_request))"
proof -
  note c5 = C5_no_credential_extraction_only[OF offline_no_key, of two_file_request]
  have up: "uploaded two_file_request \<noteq> []"
    by (simp add: uploaded_def two_file_request_def)
  have r: "snd (askWithFiles offline_env two_file_request) = Ok200 two_file_response"
    by (simp add: two_file_eval)
  from c5 have "fst (askWithFiles offline_env two_file_request) = []"
    by blast
  moreover from c5 r have
    "answer two_file_response = None \<and>
     extracted two_file_response
       = combined_text (extraction_records offline_env (uploaded two_file_request))"
    by blast
  ultimately show ?thesis
    using offline_no_key up r by blast
qed

text \<open>
  Claim C9. One upload named \<open>file.txt\<close> holding the eleven bytes of
  \<open>hello world\<close>, with the question \<open>what does this say?\<close> and no credential
  for the answering service, is answered with exactly the extracted text under its
  header, a null answer and one file entry of size and text length eleven without error.
\<close>

theorem C9_hello_world_scenario:
  assumes "\<not> truthy (GEMINI_API_KEY env)"
  shows "askWithFiles env hello_request =
           ([], Ok200 \<lparr>extracted = js ''--- file.txt (txt) ---'' @ js [CHR 0x0A]
                                    @ js ''hello world'',
                       answer = None,
                       files = [\<lparr>f_name = js ''file.txt'', f_type = js ''txt'', f_size = 11,
                                 f_textLength = 11, f_error = None\<rparr>],
                       error = None\<rparr>)"
proof -
  have up: "uploaded hello_request = [hello_file]"
    by (simp add: uploaded_def hello_request_def)
  show ?thesis
    using askWithFiles_no_key[OF assms, of hello_request]
    by (simp add: up extraction_records_map hello_record hello_combined hello_entry)
qed

theorem C9_witness:
  "\<not> truthy (GEMINI_API_KEY offline_env) \<and>
   askWithFiles offline_env hello_request =
     ([], Ok200 \<lparr>extracted = js ''--- file.txt (txt) ---'' @ js [CHR 0x0A]
                              @ js ''hello world'',
                 answer = None,
                 files = [\<lparr>f_name = js ''file.txt'', f_type = js ''txt'', f_size = 11,
                           f_textLength = 11, f_error = None\<rparr>],
                 error = None\<rparr>)"
  by (rule conjI[OF offline_no_key C9_hello_world_scenario[OF offline_no_key]])

section \<open>The aggregated text\<close>

lemma join_contains:
  "x \<in> set xs \<Longrightarrow> \<exists>pre post. join sep xs = pre @ x @ post"
proof (induction sep xs rule: join.induct)
  case (1 sep)
  then show ?case by simp
next
  case (2 sep y)
  then have "join sep [y] = [] @ x @ []" by simp
  then show ?case by blast
next
  case (3 sep y z zs)
  show ?case
  proof (cases "x = y")
    case True
    then have "join sep (y # z # zs) = [] @ x @ (sep @ join sep (z # zs))" by simp
    then show ?thesis by blast
  next
    case False
    with 3 obtain pre post where "join sep (z # zs) = pre @ x @ post" by auto
    then have "join sep (y # z # zs) = (y @ sep @ pre) @ x @ post" by simp
    then show ?thesis by blast
  qed
qed

lemma length_join:
  "length (join sep xs) = sum_list (map length xs) + length sep * (length xs - 1)"
  by (induction sep xs rule: join.induct) simp_all

lemma length_segment:
  "length (segment p)
     = 12 + length (p_name p) + length (p_ext p) + min 20000 (length (p_text p))"
  by (simp add: segment_def slice0_def js_def)

text \<open>
  Claim C6. The aggregated text is the retained records' segments joined by a blank
  line, each segment being the header \<open>--- name (ext) ---\<close>, a line feed, and the
  first 20000 code units of the record's text. So a record contributes at most 20000
  code units of text however long its text is: the length of a segment is the length
  of its header plus the smaller of 20000 and the text's length, and the length of the
  aggregated text is the sum of these over the retained records plus two for each
  separator.
\<close>

theorem C6_segment_truncated_with_header:
  "combined_text parts =
     join (js [CHR 0x0A, CHR 0x0A])
       (map (\<lambda>p. js ''--- '' @ p_name p @ js '' ('' @ p_ext p @ js '') ---'' @ js [CHR 0x0A]
                    @ take 20000 (p_text p))
            (filter retained parts)) \<and>
   segment p = js ''--- '' @ p_name p @ js '' ('' @ p_ext p @ js '') ---'' @ js [CHR 0x0A]
                 @ take 20000 (p_text p) \<and>
   length (take 20000 (p_text p)) \<le> 20000 \<and>
   length (segment p)
     = 12 + length (p_name p) + length (p_ext p) + min 20000 (length (p_text p)) \<and>
   length (combined_text parts)
     = sum_list (map (\<lambda>p. 12 + length (p_name p) + length (p_ext p)
                              + min 20000 (length (p_text p)))
                     (filter retained parts))
       + 2 * (length (filter retained parts) - 1) \<and>
   (p \<in> set parts \<and> retained p \<longrightarrow>
      (\<exists>pre post. combined_text parts = pre @ segment p @ post))"
proof -
  have seg: "segment = (\<lambda>p. js ''--- '' @ p_name p @ js '' ('' @ p_ext p @ js '') ---''
                 @ js [CHR 0x0A] @ take 20000 (p_text p))"
    by (rule ext) (simp add: segment_def slice0_def)
  have eq: "combined_text parts =
     join (js [CHR 0x0A, CHR 0x0A])
       (map (\<lambda>p. js ''--- '' @ p_name p @ js '' ('' @ p_ext p @ js '') ---'' @ js [CHR 0x0A]
                    @ take 20000 (p_text p))
            (filter retained parts))"
    unfolding combined_text_def seg ..
  have sep: "length (js [CHR 0x0A, CHR 0x0A]) = 2"
    by (simp add: js_def)
  have sm: "sum_list (map length (map segment (filter retained parts)))
      = sum_list (map (\<lambda>p. 12 + length (p_name p) + length (p_ext p)
                               + min 20000 (length (p_text p)))
                      (filter retained parts))"
    by (simp add: comp_def length_segment)
  have "length (combined_text parts)
     = sum_list (map length (map segment (filter retained parts)))
       + 2 * (length (map segment (filter retained parts)) - 1)"
    unfolding combined_text_def length_join sep ..
  then have len: "length (combined_text parts)
     = sum_list (map (\<lambda>p. 12 + length (p_name p) + length (p_ext p)
                              + min 20000 (length (p_text p)))
                     (filter retained parts))
       + 2 * (length (filter retained parts) - 1)"
    unfolding sm by simp
  have con: "p \<in> set parts \<and> retained p
      \<Longrightarrow> \<exists>pre post. combined_text parts = pre @ segment p @ post"
    unfolding combined_text_def by (rule join_contains) simp
  have s: "segment p = js ''--- '' @ p_name p @ js '' ('' @ p_ext p @ js '') ---'' @ js [CHR 0x0A]
                 @ take 20000 (p_text p)"
    by (simp add: segment_def slice0_def)
  have b: "length (take 20000 (p_text p)) \<le> 20000"
    by simp
  from eq s b length_segment[of p] len con show ?thesis
    by blast
qed

theorem C6_witness:
  "long_part \<in> set [long_part, hello_part] \<and> retained long_part \<and> retained hello_part \<and>
   length (p_text long_part) = 25000 \<and>
   segment long_part = js ''--- big.txt (txt) ---'' @ js [CHR 0x0A] @ replicate 20000 0x61 \<and>
   length (segment long_part) = 20022 \<and>
   combined_text [long_part, hello_part]
     = js ''--- big.txt (txt) ---'' @ js [CHR 0x0A] @ replicate 20000 0x61
       @ js [CHR 0x0A, CHR 0x0A]
       @ js ''--- file.txt (txt) ---'' @ js [CHR 0x0A] @ js ''hello world'' \<and>
   length (combined_text [long_part, hello_part]) = 20058 \<and>
   (\<exists>pre post. combined_text [long_part, hello_part] = pre @ segment long_part @ post)"
proof -
  note c6 = C6_segment_truncated_with_header[of "[long_part, hello_part]" long_part]
  have m: "long_part \<in> set [long_part, hello_part]"
    by simp
  have r: "retained long_part"
    by (simp add: retained_def long_part_def trim_def is_space_def)
  have rh: "retained hello_part"
    by (simp add: retained_def hello_part_def trim_def is_space_def js_def)
  have n: "length (p_text long_part) = 25000"
    by (simp add: long_part_def)
  have f: "filter retained [long_part, hello_part] = [long_part, hello_part]"
    by (simp add: r rh)
  have h: "js ''--- '' @ p_name long_part @ js '' ('' @ p_ext long_part @ js '') ---''
             @ js [CHR 0x0A] @ take 20000 (p_text long_part)
           = js ''--- big.txt (txt) ---'' @ js [CHR 0x0A] @ replicate 20000 0x61"
    by (simp add: long_part_def js_def)
  have hh: "js ''--- '' @ p_name hello_part @ js '' ('' @ p_ext hello_part @ js '') ---''
             @ js [CHR 0x0A] @ take 20000 (p_text hello_part)
           = js ''--- file.txt (txt) ---'' @ js [CHR 0x0A] @ js ''hello world''"
    by (simp add: hello_part_def js_def)
  from c6 have "segment long_part
      = js ''--- '' @ p_name long_part @ js '' ('' @ p_ext long_part @ js '') ---''
          @ js [CHR 0x0A] @ take 20000 (p_text long_part)"
    by blast
  then have s:
    "segment long_part = js ''--- big.txt (txt) ---'' @ js [CHR 0x0A] @ replicate 20000 0x61"
    by (simp only: h)
  from c6 have "length (segment long_part)
     = 12 + length (p_name long_part) + length (p_ext long_part)
       + min 20000 (length (p_text long_part))"
    by blast
  then have ls: "length (segment long_part) = 20022"
    by (simp add: long_part_def js_def)
  from c6 have "combined_text [long_part, hello_part] =
     join (js [CHR 0x0A, CHR 0x0A])
       (map (\<lambda>p. js ''--- '' @ p_name p @ js '' ('' @ p_ext p @ js '') ---'' @ js [CHR 0x0A]
                    @ take 20000 (p_text p))
            (filter retained [long_part, hello_part]))"
    by blast
  then have c: "combined_text [long_part, hello_part]
     = js ''--- big.txt (txt) ---'' @ js [CHR 0x0A] @ replicate 20000 0x61
       @ js [CHR 0x0A, CHR 0x0A]
       @ js ''--- file.txt (txt) ---'' @ js [CHR 0x0A] @ js ''hello world''"
    unfolding f by (simp add: h hh)
  from c6 have "length (combined_text [long_part, hello_part])
     = sum_list (map (\<lambda>p. 12 + length (p_name p) + length (p_ext p)
                              + min 20000 (length (p_text p)))
                     (filter retained [long_part, hello_part]))
       + 2 * (length (filter retained [long_part, hello_part]) - 1)"
    by blast
  then have lc: "length (combined_text [long_part, hello_part]) = 20058"
    unfolding f by (simp add: long_part_def hello_part_def js_def)
  from c6 m r have e:
    "\<exists>pre post. combined_text [long_part, hello_part] = pre @ segment long_part @ post"
    by blast
  from m r rh n s ls c lc e show ?thesis
    by blast
qed

section \<open>Whitespace-only text and the empty aggregate\<close>

lemma trim_Nil_iff: "trim s = [] \<longleftrightarrow> (\<forall>c \<in> set s. is_space c)"
proof
  assume "trim s = []"
  then have a: "\<forall>c \<in> set (dropWhile is_space s). is_space c"
    unfolding trim_def by (simp only: rev_is_Nil_conv dropWhile_eq_Nil_conv set_rev)
  have "dropWhile is_space s = []"
  proof (cases "dropWhile is_space s")
    case Nil
    then show ?thesis .
  next
    case (Cons x xs)
    then have "\<not> is_space x" using hd_dropWhile[of is_space s] by simp
    with a Cons show ?thesis by simp
  qed
  then show "\<forall>c \<in> set s. is_space c" by simp
next
  assume "\<forall>c \<in> set s. is_space c"
  then have d: "dropWhile is_space s = []" by simp
  show "trim s = []" unfolding trim_def d by simp
qed

lemma retained_iff: "retained p \<longleftrightarrow> (\<exists>c \<in> set (p_text p). \<not> is_space c)"
  by (auto simp: retained_def trim_Nil_iff)

lemma join_Nil_iff:
  "join sep xs = [] \<longleftrightarrow>
     (xs = [] \<or> (list_all (\<lambda>x. x = []) xs \<and> (sep = [] \<or> length xs \<le> 1)))"
  by (induction sep xs rule: join.induct) auto

lemma segment_not_Nil: "segment p \<noteq> []"
  by (simp add: segment_def js_def)

lemma combined_Nil_iff: "combined_text parts = [] \<longleftrightarrow> filter retained parts = []"
proof -
  have "\<not> list_all (\<lambda>x. x = []) (map segment (p # ps))" for p ps
    by (simp add: segment_not_Nil)
  then show ?thesis
    unfolding combined_text_def join_Nil_iff
    by (cases "filter retained parts") auto
qed

text \<open>
  Claim C7, as the code has it. The aggregated text is empty if and only if no
  extraction record has text with a character that is not white space: the filter
  drops a record whose text is empty or white space only.
\<close>

theorem C7_aggregate_empty_iff_no_retained_record:
  "combined_text parts = [] \<longleftrightarrow>
     \<not> (\<exists>p \<in> set parts. \<exists>c \<in> set (p_text p). \<not> is_space c)"
  by (auto simp: combined_Nil_iff filter_empty_conv retained_iff)

lemma blank_record: "process_file env blank_file = (blank_part, [])"
  by (simp add: process_file_def blank_file_def file_name_def file_ext_def file_size_def
      or_else_def or_str_def truthy_def js_def pop_def toLowerCase_def ascii_lower_def
      extract_try_def toString_utf8_def utf16_def Let_def blank_part_def)

theorem C7_counterexample:
  "extraction_records offline_env [blank_file] = [blank_part] \<and>
   p_text blank_part = js '' '' \<and>
   p_text blank_part \<noteq> [] \<and>
   combined_text (extraction_records offline_env [blank_file]) = []"
  by (simp add: extraction_records_map blank_record combined_text_def retained_def trim_def
      is_space_def blank_part_def js_def)

theorem C7_witness:
  "combined_text [blank_part] = [] \<and> combined_text [blank_part, hello_part] \<noteq> []"
proof -
  have b: "\<not> (\<exists>c \<in> set (p_text blank_part). \<not> is_space c)"
    by (simp add: blank_part_def js_def is_space_def)
  have h: "\<exists>c \<in> set (p_text hello_part). \<not> is_space c"
    by (simp add: hello_part_def js_def is_space_def)
  from b have "combined_text [blank_part] = []"
    using C7_aggregate_empty_iff_no_retained_record[of "[blank_part]"] by simp
  moreover from h have "combined_text [blank_part, hello_part] \<noteq> []"
    using C7_aggregate_empty_iff_no_retained_record[of "[blank_part, hello_part]"] by simp
  ultimately show ?thesis by simp
qed

section \<open>The PDF signature check reads bytes\<close>

lemma byte_bound: "unat (b :: byte) < 256"
  using unsigned_less[of b] by simp

lemma utf8_decode_ascii:
  "unat b < 0x80 \<Longrightarrow> utf8_decode (b # bs) = unat b # utf8_decode bs"
  by simp

lemma utf8_decode_nonascii:
  assumes "\<not> unat b < 0x80"
  shows "\<exists>u us. utf8_decode (b # bs) = u # us \<and> 0x80 \<le> u \<and> u < 0x110000"
proof -
  consider (two) "0xC2 \<le> unat b \<and> unat b \<le> 0xDF"
    | (three) "0xE0 \<le> unat b \<and> unat b \<le> 0xEF"
    | (four) "0xF0 \<le> unat b \<and> unat b \<le> 0xF4"
    | (low) "unat b < 0xC2" | (high) "0xF4 < unat b"
    by linarith
  then show ?thesis
  proof cases
    case two
    with assms show ?thesis
      by (cases bs) (auto simp: cont_def)
  next
    case three
    with assms show ?thesis
      by (cases bs; cases "tl bs") (auto simp: cont_def)
  next
    case four
    with assms show ?thesis
      by (cases bs; cases "tl bs"; cases "tl (tl bs)") (auto simp: cont_def)
  next
    case low
    with assms show ?thesis by simp
  next
    case high
    with assms show ?thesis by simp
  qed
qed

lemma utf16_head:
  assumes "0x80 \<le> u" and "u < 0x110000"
  shows "\<exists>w ws. utf16 u = w # ws \<and> \<not> w < 0x80"
proof (cases "u < 0x10000")
  case True
  with assms have "unat (of_nat u :: cu) = u"
    by (simp add: unat_of_nat)
  with assms True show ?thesis
    by (simp add: utf16_def word_less_nat_alt)
next
  case False
  define n where "n = 0xD800 + (u - 0x10000) div 1024"
  with assms have "n < 0x10000" and "0x80 \<le> n"
    by simp_all
  then have "unat (of_nat n :: cu) = n"
    by (simp add: unat_of_nat)
  with \<open>0x80 \<le> n\<close> have "\<not> (of_nat n :: cu) < 0x80"
    by (simp add: word_less_nat_alt)
  moreover from False have "utf16 u = of_nat n # [of_nat (0xDC00 + (u - 0x10000) mod 1024)]"
    unfolding utf16_def n_def by (simp only: if_False)
  ultimately show ?thesis by blast
qed

lemma toString_ascii:
  "unat b < 0x80 \<Longrightarrow> toString_utf8 (b # bs) = of_nat (unat b) # toString_utf8 bs"
  by (simp add: toString_utf8_def utf16_def)

lemma toString_nonascii:
  assumes "\<not> unat b < 0x80"
  shows "\<exists>w ws. toString_utf8 (b # bs) = w # ws \<and> \<not> w < 0x80"
proof -
  from utf8_decode_nonascii[OF assms, of bs] obtain u us
    where d: "utf8_decode (b # bs) = u # us" and "0x80 \<le> u" and "u < 0x110000"
    by blast
  with utf16_head obtain w ws where "utf16 u = w # ws" and "\<not> w < 0x80"
    by blast
  with d show ?thesis
    by (simp add: toString_utf8_def)
qed

lemma toString_ascii_prefix:
  "list_all (\<lambda>w. w < 0x80) p \<Longrightarrow> take (length p) (toString_utf8 bs) = p
     \<Longrightarrow> take (length p) bs = map (\<lambda>w. of_nat (unat w)) p"
proof (induction p arbitrary: bs)
  case Nil
  then show ?case by simp
next
  case (Cons w p)
  show ?case
  proof (cases bs)
    case Nil
    with Cons.prems show ?thesis by (simp add: toString_utf8_def)
  next
    case (Cons b bs')
    show ?thesis
    proof (cases "unat b < 0x80")
      case True
      with Cons.prems \<open>bs = b # bs'\<close> have w: "w = of_nat (unat b)"
        and rest: "take (length p) (toString_utf8 bs') = p"
        by (simp_all add: toString_ascii)
      from Cons.prems have "list_all (\<lambda>w. w < 0x80) p" by simp
      from Cons.IH[OF this rest] have "take (length p) bs' = map (\<lambda>w. of_nat (unat w)) p" .
      moreover from w have "of_nat (unat w) = b"
        by (simp add: ucast_up_ucast_id is_up)
      ultimately show ?thesis using \<open>bs = b # bs'\<close> by simp
    next
      case False
      from toString_nonascii[OF False, of bs'] obtain v vs
        where "toString_utf8 (b # bs') = v # vs" and "\<not> v < 0x80" by blast
      with Cons.prems \<open>bs = b # bs'\<close> show ?thesis by simp
    qed
  qed
qed

lemma pdf_header_check:
  "startsWith (toString_utf8 (slice0 4 bs)) (js ''%PDF'') \<longleftrightarrow> take 4 bs = ascii_bytes ''%PDF''"
proof
  assume "startsWith (toString_utf8 (slice0 4 bs)) (js ''%PDF'')"
  then have "take (length (js ''%PDF'')) (toString_utf8 (take 4 bs)) = js ''%PDF''"
    by (simp add: startsWith_def slice0_def)
  moreover have "list_all (\<lambda>w. w < 0x80) (js ''%PDF'')"
    by (simp add: js_def)
  ultimately have "take (length (js ''%PDF'')) (take 4 bs) = map (\<lambda>w. of_nat (unat w)) (js ''%PDF'')"
    by (rule toString_ascii_prefix[rotated])
  moreover have "length (js ''%PDF'') = 4"
    by (simp add: js_def)
  ultimately have "take 4 (take 4 bs) = map (\<lambda>w. of_nat (unat w)) (js ''%PDF'')"
    by (simp only:)
  then show "take 4 bs = ascii_bytes ''%PDF''"
    by (simp add: js_def ascii_bytes_def)
next
  assume "take 4 bs = ascii_bytes ''%PDF''"
  then show "startsWith (toString_utf8 (slice0 4 bs)) (js ''%PDF'')"
    by (simp add: startsWith_def slice0_def js_def ascii_bytes_def toString_utf8_def utf16_def)
qed

section \<open>PDF uploads\<close>

lemma process_file_pdf:
  assumes "file_ext env f = js ''pdf''"
  shows "process_file env f =
     (case extractTextFromPdf env (buffer f) of
        Inl err \<Rightarrow>
          (\<lparr>p_name = file_name f, p_ext = js ''pdf'', p_text = [], p_size = file_size f,
            p_error = message err\<rparr>, [])
      | Inr r \<Rightarrow>
          (\<lparr>p_name = file_name f, p_ext = js ''pdf'', p_text = result_text r,
            p_size = file_size f, p_error = (if isScanned r then info r else None)\<rparr>, []))"
  using assms by (simp add: process_file_def extract_try_def Let_def split: sum.splits)

lemma extractTextFromPdf_rejects:
  assumes "buf = None \<or> buf = Some [] \<or> (\<exists>bs. buf = Some bs \<and> take 4 bs \<noteq> ascii_bytes ''%PDF'')"
  shows "\<exists>reason. extractTextFromPdf env buf
           = Inl (JsError (Some (js ''PDF parsing failed: '' @ reason)))"
  using assms
  by (auto simp: extractTextFromPdf_def pdf_try_def pdf_header_check template_str_def
           split: option.splits)

lemma extraction_records_append:
  "extraction_records env (fs1 @ f # fs2)
     = extraction_records env fs1 @ fst (process_file env f) # extraction_records env fs2"
  by (simp add: extraction_records_map)

lemma image_parts_append:
  "image_parts env (fs1 @ f # fs2)
     = image_parts env fs1 @ snd (process_file env f) @ image_parts env fs2"
  by (simp add: image_parts_concat)

lemma askWithFiles_outcome:
  assumes "uploaded req \<noteq> []"
  shows "(\<exists>calls r. askWithFiles env req = (calls, Ok200 r)) \<or>
         (\<exists>call e. askWithFiles env req
                      = ([call], ServerError500 (js ''Failed to process files'') (message e)) \<and>
                    axios_post env (fst call) (snd call) = Inl e)"
  using assms
  by (auto simp: askWithFiles_def Let_def process_files_start
           split: option.splits sum.splits)

text \<open>
  Claim C8. An upload with extension \<open>pdf\<close> whose buffer is missing, empty or does
  not begin with the four bytes \<open>%PDF\<close> gets a record with empty text and a
  non-empty error message (text length 0 and that error in its file entry); the
  records of the files before and after it are those they get on their own, no image
  part is added, and the request is answered: by a response holding that entry, or by
  the error response of a failed call to the answering service.
\<close>

theorem C8_malformed_pdf_is_recorded:
  assumes ext: "file_ext env f = js ''pdf''"
    and bad: "buffer f = None \<or> buffer f = Some [] \<or>
              (\<exists>bs. buffer f = Some bs \<and> take 4 bs \<noteq> ascii_bytes ''%PDF'')"
  shows "\<exists>reason.
     process_file env f =
       (\<lparr>p_name = file_name f, p_ext = js ''pdf'', p_text = [], p_size = file_size f,
         p_error = Some (js ''PDF parsing failed: '' @ reason)\<rparr>, []) \<and>
     js ''PDF parsing failed: '' @ reason \<noteq> [] \<and>
     file_entry_of (fst (process_file env f)) =
       \<lparr>f_name = file_name f, f_type = js ''pdf'', f_size = file_size f, f_textLength = 0,
        f_error = Some (js ''PDF parsing failed: '' @ reason)\<rparr> \<and>
     extraction_records env (fs1 @ f # fs2)
       = extraction_records env fs1 @ fst (process_file env f) # extraction_records env fs2 \<and>
     image_parts env (fs1 @ f # fs2) = image_parts env fs1 @ image_parts env fs2 \<and>
     (uploaded req = fs1 @ f # fs2 \<longrightarrow>
        (\<exists>calls r. askWithFiles env req = (calls, Ok200 r) \<and>
           files r ! length fs1 =
             \<lparr>f_name = file_name f, f_type = js ''pdf'', f_size = file_size f,
              f_textLength = 0, f_error = Some (js ''PDF parsing failed: '' @ reason)\<rparr>) \<or>
        (\<exists>call e. askWithFiles env req
                     = ([call], ServerError500 (js ''Failed to process files'') (message e)) \<and>
                   axios_post env (fst call) (snd call) = Inl e))"
proof -
  from extractTextFromPdf_rejects[OF bad, of env] obtain reason where
    r: "extractTextFromPdf env (buffer f)
          = Inl (JsError (Some (js ''PDF parsing failed: '' @ reason)))"
    by blast
  let ?msg = "js ''PDF parsing failed: '' @ reason"
  let ?entry = "\<lparr>f_name = file_name f, f_type = js ''pdf'', f_size = file_size f,
                 f_textLength = 0, f_error = Some ?msg\<rparr>"
  have ne: "?msg \<noteq> []"
    by (simp add: js_def)
  have p: "process_file env f =
       (\<lparr>p_name = file_name f, p_ext = js ''pdf'', p_text = [], p_size = file_size f,
         p_error = Some ?msg\<rparr>, [])"
    by (simp add: process_file_pdf[OF ext] r)
  have e: "file_entry_of (fst (process_file env f)) = ?entry"
    using ne by (simp add: p file_entry_of_def or_else_def truthy_def)
  have i: "image_parts env (fs1 @ f # fs2) = image_parts env fs1 @ image_parts env fs2"
    by (simp add: image_parts_append p)
  have a: "(\<exists>calls r. askWithFiles env req = (calls, Ok200 r) \<and> files r ! length fs1 = ?entry) \<or>
        (\<exists>call e. askWithFiles env req
                     = ([call], ServerError500 (js ''Failed to process files'') (message e)) \<and>
                   axios_post env (fst call) (snd call) = Inl e)"
    if up: "uploaded req = fs1 @ f # fs2"
  proof -
    from up have "uploaded req \<noteq> []" by simp
    from askWithFiles_outcome[OF this, of env] show ?thesis
    proof
      assume "\<exists>calls r. askWithFiles env req = (calls, Ok200 r)"
      then obtain calls r where ok: "askWithFiles env req = (calls, Ok200 r)" by blast
      from askWithFiles_Ok200(1)[OF ok] have
        "files r = map file_entry_of (extraction_records env fs1) @ ?entry
                     # map file_entry_of (extraction_records env fs2)"
        by (simp add: up extraction_records_append e)
      moreover have "length (map file_entry_of (extraction_records env fs1)) = length fs1"
        by (simp add: extraction_records_map)
      ultimately have "files r ! length fs1 = ?entry"
        by (metis nth_append_length)
      with ok show ?thesis by blast
    next
      assume "\<exists>call e. askWithFiles env req
                     = ([call], ServerError500 (js ''Failed to process files'') (message e)) \<and>
                   axios_post env (fst call) (snd call) = Inl e"
      then show ?thesis by blast
    qed
  qed
  from p ne e i a extraction_records_append[of env fs1 f fs2] show ?thesis
    by blast
qed

theorem C8_witness:
  "file_ext offline_env broken_pdf_file = js ''pdf'' \<and>
   buffer broken_pdf_file = Some (ascii_bytes ''<html>'') \<and>
   take 4 (ascii_bytes ''<html>'') \<noteq> ascii_bytes ''%PDF'' \<and>
   uploaded two_file_request = [] @ broken_pdf_file # [hello_file] \<and>
   process_file offline_env broken_pdf_file = (broken_pdf_part, []) \<and>
   p_text broken_pdf_part = [] \<and>
   p_error broken_pdf_part = Some broken_pdf_message \<and>
   broken_pdf_message \<noteq> [] \<and>
   extraction_records offline_env ([] @ broken_pdf_file # [hello_file])
     = [broken_pdf_part, hello_part] \<and>
   image_parts offline_env ([] @ broken_pdf_file # [hello_file]) = [] \<and>
   askWithFiles offline_env two_file_request = ([], Ok200 two_file_response) \<and>
   f_textLength (files two_file_response ! 0) = 0 \<and>
   f_error (files two_file_response ! 0) = Some broken_pdf_message"
proof -
  have ext: "file_ext offline_env broken_pdf_file = js ''pdf''"
    by (simp add: broken_pdf_file_def file_name_def file_ext_def
      or_else_def or_str_def truthy_def js_def pop_def toLowerCase_def ascii_lower_def)
  have b: "buffer broken_pdf_file = Some (ascii_bytes ''<html>'')"
    by (simp add: broken_pdf_file_def)
  have s: "take 4 (ascii_bytes ''<html>'') \<noteq> ascii_bytes ''%PDF''"
    by (simp add: ascii_bytes_def)
  from b s have bad: "buffer broken_pdf_file = None \<or> buffer broken_pdf_file = Some [] \<or>
      (\<exists>bs. buffer broken_pdf_file = Some bs \<and> take 4 bs \<noteq> ascii_bytes ''%PDF'')"
    by simp
  have up: "uploaded two_file_request = [] @ broken_pdf_file # [hello_file]"
    by (simp add: uploaded_def two_file_request_def)
  from C8_malformed_pdf_is_recorded[OF ext bad, of "[]" "[hello_file]" two_file_request]
  obtain reason where
    p: "process_file offline_env broken_pdf_file =
       (\<lparr>p_name = file_name broken_pdf_file, p_ext = js ''pdf'', p_text = [],
         p_size = file_size broken_pdf_file,
         p_error = Some (js ''PDF parsing failed: '' @ reason)\<rparr>, [])"
    and ne: "js ''PDF parsing failed: '' @ reason \<noteq> []"
    and recs: "extraction_records offline_env ([] @ broken_pdf_file # [hello_file])
       = extraction_records offline_env [] @ fst (process_file offline_env broken_pdf_file)
           # extraction_records offline_env [hello_file]"
    and imgs: "image_parts offline_env ([] @ broken_pdf_file # [hello_file])
       = image_parts offline_env [] @ image_parts offline_env [hello_file]"
    by blast
  from p have m: "broken_pdf_message = js ''PDF parsing failed: '' @ reason"
    by (simp add: broken_pdf_record broken_pdf_part_def)
  with ne have ne': "broken_pdf_message \<noteq> []" by simp
  from recs have recs': "extraction_records offline_env ([] @ broken_pdf_file # [hello_file])
     = [broken_pdf_part, hello_part]"
    by (simp add: extraction_records_map broken_pdf_record hello_record)
  from imgs have imgs': "image_parts offline_env ([] @ broken_pdf_file # [hello_file]) = []"
    by (simp add: image_parts_concat hello_record)
  have f: "f_textLength (files two_file_response ! 0) = 0 \<and>
           f_error (files two_file_response ! 0) = Some broken_pdf_message"
    by (simp add: two_file_response_def)
  have t: "p_text broken_pdf_part = [] \<and> p_error broken_pdf_part = Some broken_pdf_message"
    by (simp add: broken_pdf_part_def)
  from ext b s up broken_pdf_record ne' recs' imgs' two_file_eval f t show ?thesis
    by blast
qed

text \<open>
  Claim C2, as the code has it. For an upload with extension \<open>pdf\<close> whose bytes
  begin with the signature and whose parse succeeds without any text, the extractor
  returns (it does not throw) a result with \<open>isScanned\<close> set, empty text and a
  human-readable explanation; the loop stores that explanation in the \<open>error\<close>
  field of the record, whose text is empty, and the file entry of the response shows
  it as the file's error.
\<close>

theorem C2_scanned_pdf_diagnostic_in_error_field:
  assumes ext: "file_ext env f = js ''pdf''"
    and buf: "buffer f = Some bs"
    and sig: "take 4 bs = ascii_bytes ''%PDF''"
    and parsed: "pdfParse env bs = Inr data"
    and no_text: "Option.bind data pdf_text = None \<or> Option.bind data pdf_text = Some []"
  shows "extractTextFromPdf env (buffer f) =
           Inr \<lparr>result_text = [], isScanned = True, pages = data_numpages data,
                info = Some scanned_info\<rparr> \<and>
         scanned_info \<noteq> [] \<and>
         process_file env f =
           (\<lparr>p_name = file_name f, p_ext = js ''pdf'', p_text = [], p_size = length bs,
             p_error = Some scanned_info\<rparr>, []) \<and>
         file_entry_of (fst (process_file env f)) =
           \<lparr>f_name = file_name f, f_type = js ''pdf'', f_size = length bs, f_textLength = 0,
            f_error = Some scanned_info\<rparr>"
proof -
  from sig have "bs \<noteq> []"
    by (auto simp: ascii_bytes_def)
  with no_text parsed sig have x': "extractTextFromPdf env (Some bs) =
           Inr \<lparr>result_text = [], isScanned = True, pages = data_numpages data,
                info = Some scanned_info\<rparr>"
    by (auto simp: extractTextFromPdf_def pdf_try_def pdf_header_check)
  then have x: "extractTextFromPdf env (buffer f) =
           Inr \<lparr>result_text = [], isScanned = True, pages = data_numpages data,
                info = Some scanned_info\<rparr>"
    by (simp add: buf)
  have ne: "scanned_info \<noteq> []"
    by (simp add: scanned_info_def js_def)
  have p: "process_file env f =
           (\<lparr>p_name = file_name f, p_ext = js ''pdf'', p_text = [], p_size = length bs,
             p_error = Some scanned_info\<rparr>, [])"
    by (simp add: process_file_pdf[OF ext] x' file_size_def buf)
  have "file_entry_of (fst (process_file env f)) =
           \<lparr>f_name = file_name f, f_type = js ''pdf'', f_size = length bs, f_textLength = 0,
            f_error = Some scanned_info\<rparr>"
    using ne by (simp add: p file_entry_of_def or_else_def truthy_def)
  with x ne p show ?thesis by blast
qed

lemma scanned_ext: "file_ext env scanned_pdf_file = js ''pdf''"
  by (simp add: scanned_pdf_file_def file_name_def file_ext_def
      or_else_def or_str_def truthy_def js_def pop_def toLowerCase_def ascii_lower_def)

lemma scanned_record:
  "process_file scanned_env scanned_pdf_file =
     (\<lparr>p_name = js ''scan.pdf'', p_ext = js ''pdf'', p_text = [], p_size = 8,
       p_error = Some scanned_info\<rparr>, [])"
proof -
  have x: "extractTextFromPdf scanned_env (buffer scanned_pdf_file) =
      Inr \<lparr>result_text = [], isScanned = True, pages = 3, info = Some scanned_info\<rparr>"
    by (simp add: extractTextFromPdf_def pdf_try_def scanned_pdf_file_def scanned_env_def
        offline_env_def pdf_header_check ascii_bytes_def data_numpages_def)
  show ?thesis
    by (simp add: process_file_pdf[OF scanned_ext] x)
       (simp add: scanned_pdf_file_def file_name_def file_size_def or_else_def or_str_def
          truthy_def js_def ascii_bytes_def)
qed

theorem C2_counterexample:
  "file_ext scanned_env scanned_pdf_file = js ''pdf'' \<and>
   extractTextFromPdf scanned_env (buffer scanned_pdf_file) =
     Inr \<lparr>result_text = [], isScanned = True, pages = 3, info = Some scanned_info\<rparr> \<and>
   p_error (fst (process_file scanned_env scanned_pdf_file)) = Some scanned_info \<and>
   p_error (fst (process_file scanned_env scanned_pdf_file)) \<noteq> None \<and>
   askWithFiles scanned_env scanned_request = ([], Ok200 scanned_response) \<and>
   map f_error (files scanned_response) = [Some scanned_info]"
proof -
  have x: "extractTextFromPdf scanned_env (buffer scanned_pdf_file) =
      Inr \<lparr>result_text = [], isScanned = True, pages = 3, info = Some scanned_info\<rparr>"
    by (simp add: extractTextFromPdf_def pdf_try_def scanned_pdf_file_def scanned_env_def
        offline_env_def pdf_header_check ascii_bytes_def data_numpages_def)
  have k: "\<not> truthy (GEMINI_API_KEY scanned_env)"
    by (simp add: scanned_env_def offline_env_def truthy_def)
  have up: "uploaded scanned_request = [scanned_pdf_file]"
    by (simp add: uploaded_def scanned_request_def)
  have ne: "scanned_info \<noteq> []"
    by (simp add: scanned_info_def js_def)
  have "askWithFiles scanned_env scanned_request = ([], Ok200 scanned_response)"
    using askWithFiles_no_key[OF k, of scanned_request] ne
    by (simp add: up extraction_records_map scanned_record combined_text_def retained_def
        scanned_response_def file_entry_of_def or_else_def truthy_def)
  with x show ?thesis
    by (simp add: scanned_ext scanned_record scanned_response_def)
qed

theorem C2_witness:
  "file_ext scanned_env scanned_pdf_file = js ''pdf'' \<and>
   buffer scanned_pdf_file = Some (ascii_bytes ''%PDF-1.4'') \<and>
   take 4 (ascii_bytes ''%PDF-1.4'') = ascii_bytes ''%PDF'' \<and>
   pdfParse scanned_env (ascii_bytes ''%PDF-1.4'')
     = Inr (Some \<lparr>pdf_text = Some [], numpages = Some 3\<rparr>) \<and>
   Option.bind (Some \<lparr>pdf_text = Some [], numpages = Some 3\<rparr>) pdf_text = Some [] \<and>
   extractTextFromPdf scanned_env (buffer scanned_pdf_file) =
     Inr \<lparr>result_text = [], isScanned = True, pages = 3, info = Some scanned_info\<rparr> \<and>
   process_file scanned_env scanned_pdf_file =
     (\<lparr>p_name = js ''scan.pdf'', p_ext = js ''pdf'', p_text = [], p_size = 8,
       p_error = Some scanned_info\<rparr>, []) \<and>
   file_entry_of (fst (process_file scanned_env scanned_pdf_file)) =
     \<lparr>f_name = js ''scan.pdf'', f_type = js ''pdf'', f_size = 8, f_textLength = 0,
      f_error = Some scanned_info\<rparr>"
proof -
  have b: "buffer scanned_pdf_file = Some (ascii_bytes ''%PDF-1.4'')"
    by (simp add: scanned_pdf_file_def)
  have s: "take 4 (ascii_bytes ''%PDF-1.4'') = ascii_bytes ''%PDF''"
    by (simp add: ascii_bytes_def)
  have p: "pdfParse scanned_env (ascii_bytes ''%PDF-1.4'')
             = Inr (Some \<lparr>pdf_text = Some [], numpages = Some 3\<rparr>)"
    by (simp add: scanned_env_def offline_env_def)
  have n: "Option.bind (Some \<lparr>pdf_text = Some [], numpages = Some 3\<rparr>) pdf_text = None \<or>
           Option.bind (Some \<lparr>pdf_text = Some [], numpages = Some 3\<rparr>) pdf_text = Some []"
    by simp
  have nm: "file_name scanned_pdf_file = js ''scan.pdf''"
    by (simp add: scanned_pdf_file_def file_name_def or_else_def or_str_def truthy_def js_def)
  have ln: "length (ascii_bytes ''%PDF-1.4'') = 8"
    by (simp add: ascii_bytes_def)
  have pg: "data_numpages (Some \<lparr>pdf_text = Some [], numpages = Some 3\<rparr>) = 3"
    by (simp add: data_numpages_def)
  have n': "Option.bind (Some \<lparr>pdf_text = Some [], numpages = Some 3\<rparr>) pdf_text = Some []"
    by simp
  note c2 = C2_scanned_pdf_diagnostic_in_error_field[OF scanned_ext b s p n, unfolded nm ln pg]
  from c2 b s p n' scanned_ext[of scanned_env] show ?thesis
    by blast
qed

section \<open>Image uploads and the prompt modes\<close>

lemma image_ext_cases:
  "ext \<in> set image_exts \<Longrightarrow>
     ext \<noteq> js ''pdf'' \<and> ext \<noteq> js ''docx'' \<and> ext \<noteq> js ''xlsx'' \<and> ext \<noteq> js ''txt''
     \<and> ext \<noteq> js ''html''"
  by (auto simp: image_exts_def js_def)

lemma process_file_image:
  assumes "file_ext env f \<in> set image_exts" and "buffer f = Some bs"
  shows "process_file env f =
     (\<lparr>p_name = file_name f, p_ext = file_ext env f, p_text = image_marker (file_name f),
       p_size = length bs, p_error = None\<rparr>,
      [\<lparr>img_name = file_name f,
        mimeType = or_str (map_of mimeTypes (file_ext env f)) (js ''image/jpeg''),
        img_data = toString_base64 bs\<rparr>])"
  using assms image_ext_cases[OF assms(1)]
  by (simp add: process_file_def extract_try_def Let_def file_size_def)

lemma image_marker_not_Nil: "image_marker n \<noteq> []"
  by (simp add: image_marker_def js_def)

lemma extract_try_images:
  assumes "extract_try env f name ext = Inr e" and "ex_images e \<noteq> []"
  shows "ex_text e = image_marker name"
proof -
  consider (is_pdf) "ext = js ''pdf''"
    | (is_docx) "ext \<noteq> js ''pdf''" "ext = js ''docx''"
    | (is_xlsx) "ext \<noteq> js ''pdf''" "ext \<noteq> js ''docx''" "ext = js ''xlsx''"
    | (is_txt) "ext \<noteq> js ''pdf''" "ext \<noteq> js ''docx''" "ext \<noteq> js ''xlsx''"
        "ext = js ''txt'' \<or> ext = js ''html''"
    | (is_image) "ext \<noteq> js ''pdf''" "ext \<noteq> js ''docx''" "ext \<noteq> js ''xlsx''"
        "\<not> (ext = js ''txt'' \<or> ext = js ''html'')" "ext \<in> set image_exts"
    | (is_other) "ext \<noteq> js ''pdf''" "ext \<noteq> js ''docx''" "ext \<noteq> js ''xlsx''"
        "\<not> (ext = js ''txt'' \<or> ext = js ''html'')" "ext \<notin> set image_exts"
    by blast
  then show ?thesis
  proof cases
    case is_pdf
    with assms show ?thesis
      by (simp add: extract_try_def split: sum.splits) auto
  next
    case is_docx
    with assms show ?thesis
      by (simp add: extract_try_def split: sum.splits) auto
  next
    case is_xlsx
    with assms show ?thesis
      by (simp add: extract_try_def split: sum.splits) auto
  next
    case is_txt
    with assms show ?thesis
      by (simp add: extract_try_def split: option.splits if_splits) auto
  next
    case is_image
    with assms show ?thesis
      by (simp add: extract_try_def split: option.splits) auto
  next
    case is_other
    with assms show ?thesis
      by (simp add: extract_try_def) auto
  qed
qed

lemma pushed_image_has_marker:
  assumes "snd (process_file env f) \<noteq> []"
  shows "p_text (fst (process_file env f)) = image_marker (file_name f)"
proof (cases "extract_try env f (file_name f) (file_ext env f)")
  case (Inl err)
  with assms show ?thesis
    by (simp add: process_file_def Let_def)
next
  case (Inr e)
  with assms have "ex_images e \<noteq> []"
    by (simp add: process_file_def Let_def)
  from extract_try_images[OF Inr this] Inr show ?thesis
    by (simp add: process_file_def Let_def)
qed

lemma marker_retained: "p_text p = image_marker n \<Longrightarrow> retained p"
proof -
  assume "p_text p = image_marker n"
  then have "0x5B \<in> set (p_text p)"
    by (simp add: image_marker_def js_def)
  moreover have "\<not> is_space 0x5B"
    by (simp add: is_space_def)
  ultimately show ?thesis
    unfolding retained_iff by blast
qed

lemma retained_record_gives_text:
  assumes "p \<in> set parts" and "retained p"
  shows "combined_text parts \<noteq> []" and "trim (combined_text parts) \<noteq> []"
proof -
  from assms have "segment p \<in> set (map segment (filter retained parts))"
    by simp
  from join_contains[OF this] obtain pre post
    where c: "combined_text parts = pre @ segment p @ post"
    unfolding combined_text_def by blast
  have "0x2D \<in> set (segment p)"
    by (simp add: segment_def js_def)
  with c have m: "0x2D \<in> set (combined_text parts)"
    by simp
  moreover have "\<not> is_space 0x2D"
    by (simp add: is_space_def)
  ultimately show "trim (combined_text parts) \<noteq> []"
    unfolding trim_Nil_iff by blast
  from m show "combined_text parts \<noteq> []"
    by auto
qed

lemma images_give_text:
  assumes "image_parts env fs \<noteq> []"
  shows "trim (combined_text (extraction_records env fs)) \<noteq> []"
proof -
  from assms obtain f where f: "f \<in> set fs" and "snd (process_file env f) \<noteq> []"
    by (auto simp: image_parts_concat)
  then have "retained (fst (process_file env f))"
    using pushed_image_has_marker marker_retained by blast
  moreover from f have "fst (process_file env f) \<in> set (extraction_records env fs)"
    by (simp add: extraction_records_map)
  ultimately show ?thesis
    by (rule retained_record_gives_text(2)[rotated])
qed

text \<open>
  Claim C10, as the code has it. An upload classified as an image whose buffer is
  present gets the non-empty placeholder marker as its text and one image part, so the
  aggregated text is non-empty, also after trimming. Whatever is uploaded, the
  image-only prompt mode (image parts present, aggregated text empty after trimming)
  is never selected: an image part exists only beside a record that holds the marker.
\<close>

theorem C10_image_only_mode_unreachable:
  "(f \<in> set fs \<and> file_ext env f \<in> set image_exts \<and> buffer f = Some bs \<longrightarrow>
      p_text (fst (process_file env f)) = image_marker (file_name f) \<and>
      image_marker (file_name f) \<noteq> [] \<and>
      snd (process_file env f) \<noteq> [] \<and>
      combined_text (extraction_records env fs) \<noteq> [] \<and>
      trim (combined_text (extraction_records env fs)) \<noteq> []) \<and>
   prompt_mode_of (image_parts env fs) (combined_text (extraction_records env fs)) \<noteq> ImageOnly"
proof -
  have a: "p_text (fst (process_file env f)) = image_marker (file_name f) \<and>
      image_marker (file_name f) \<noteq> [] \<and>
      snd (process_file env f) \<noteq> [] \<and>
      combined_text (extraction_records env fs) \<noteq> [] \<and>
      trim (combined_text (extraction_records env fs)) \<noteq> []"
    if "f \<in> set fs" and "file_ext env f \<in> set image_exts" and "buffer f = Some bs"
  proof -
    from process_file_image[OF that(2,3)] have
      t: "p_text (fst (process_file env f)) = image_marker (file_name f)"
      and i: "snd (process_file env f) \<noteq> []"
      by simp_all
    from t have r: "retained (fst (process_file env f))"
      by (rule marker_retained)
    from that(1) have m: "fst (process_file env f) \<in> set (extraction_records env fs)"
      by (simp add: extraction_records_map)
    from retained_record_gives_text[OF m r] t i image_marker_not_Nil show ?thesis
      by blast
  qed
  have b: "prompt_mode_of (image_parts env fs) (combined_text (extraction_records env fs)) \<noteq> ImageOnly"
    using images_give_text[of env fs]
    by (auto simp: prompt_mode_of_def)
  from a b show ?thesis by blast
qed

lemma photo_ext: "file_ext env photo_file = js ''png''"
  by (simp add: photo_file_def file_name_def file_ext_def
      or_else_def or_str_def truthy_def js_def pop_def toLowerCase_def ascii_lower_def)

lemma photo_without_buffer_record:
  "process_file env photo_without_buffer =
     (\<lparr>p_name = js ''photo.png'', p_ext = js ''png'', p_text = [], p_size = 0,
       p_error = Some (js ''Cannot read properties of undefined (reading 'toString')'')\<rparr>, [])"
  by (simp add: process_file_def photo_without_buffer_def file_name_def file_ext_def
      file_size_def or_else_def or_str_def truthy_def js_def pop_def toLowerCase_def
      ascii_lower_def extract_try_def image_exts_def Let_def)

theorem C10_counterexample:
  "file_ext offline_env photo_without_buffer = js ''png'' \<and>
   js ''png'' \<in> set image_exts \<and>
   p_text (fst (process_file offline_env photo_without_buffer)) = [] \<and>
   combined_text (extraction_records offline_env [photo_without_buffer]) = []"
proof -
  have "file_ext offline_env photo_without_buffer = js ''png''"
    by (simp add: photo_without_buffer_def file_name_def file_ext_def
      or_else_def or_str_def truthy_def js_def pop_def toLowerCase_def ascii_lower_def)
  moreover have "js ''png'' \<in> set image_exts"
    by (simp add: image_exts_def)
  moreover have "combined_text (extraction_records offline_env [photo_without_buffer]) = []"
    by (simp add: extraction_records_map photo_without_buffer_record combined_text_def
        retained_def)
  ultimately show ?thesis
    by (simp add: photo_without_buffer_record)
qed

theorem C10_witness:
  "photo_file \<in> set [hello_file, photo_file] \<and>
   file_ext offline_env photo_file \<in> set image_exts \<and>
   buffer photo_file = Some [0x89, 0x50, 0x4E, 0x47] \<and>
   p_text (fst (process_file offline_env photo_file)) = image_marker (file_name photo_file) \<and>
   image_parts offline_env [hello_file, photo_file] \<noteq> [] \<and>
   trim (combined_text (extraction_records offline_env [hello_file, photo_file])) \<noteq> [] \<and>
   prompt_mode_of (image_parts offline_env [hello_file, photo_file])
     (combined_text (extraction_records offline_env [hello_file, photo_file])) \<noteq> ImageOnly"
proof -
  have m: "photo_file \<in> set [hello_file, photo_file]"
    by simp
  have e: "file_ext offline_env photo_file \<in> set image_exts"
    by (simp add: photo_ext image_exts_def)
  have b: "buffer photo_file = Some [0x89, 0x50, 0x4E, 0x47]"
    by (simp add: photo_file_def)
  note c10 = C10_image_only_mode_unreachable[of photo_file "[hello_file, photo_file]"
      offline_env "[0x89, 0x50, 0x4E, 0x47]"]
  from c10 m e b have
    "p_text (fst (process_file offline_env photo_file)) = image_marker (file_name photo_file)"
    and "snd (process_file offline_env photo_file) \<noteq> []"
    and "trim (combined_text (extraction_records offline_env [hello_file, photo_file])) \<noteq> []"
    and "prompt_mode_of (image_parts offline_env [hello_file, photo_file])
     (combined_text (extraction_records offline_env [hello_file, photo_file])) \<noteq> ImageOnly"
    by blast+
  moreover from this(2) have "image_parts offline_env [hello_file, photo_file] \<noteq> []"
    by (simp add: image_parts_concat)
  ultimately show ?thesis
    using m e b by blast
qed

section \<open>The diagnostic answer\<close>

lemma no_text_no_images:
  assumes "\<forall>p \<in> set (extraction_records env fs). p_text p = []"
  shows "image_parts env fs = []"
proof (rule ccontr)
  assume "image_parts env fs \<noteq> []"
  then obtain f where f: "f \<in> set fs" and "snd (process_file env f) \<noteq> []"
    by (auto simp: image_parts_concat)
  then have "p_text (fst (process_file env f)) = image_marker (file_name f)"
    by (simp add: pushed_image_has_marker)
  moreover from f assms have "p_text (fst (process_file env f)) = []"
    by (simp add: extraction_records_map)
  ultimately show False
    using image_marker_not_Nil[of "file_name f"] by metis
qed

lemma no_text_no_aggregate:
  assumes "\<forall>p \<in> set (extraction_records env fs). p_text p = []"
  shows "combined_text (extraction_records env fs) = []"
  using assms by (simp add: combined_Nil_iff filter_empty_conv retained_def)

lemma askWithFiles_no_content:
  assumes "truthy (GEMINI_API_KEY env)" and "uploaded req \<noteq> []"
    and "trim (combined_text (extraction_records env (uploaded req))) = []"
    and "image_parts env (uploaded req) = []"
  shows "askWithFiles env req =
     ([], Ok200 \<lparr>extracted = combined_text (extraction_records env (uploaded req)),
                 answer = Some (diagnostic_answer (extraction_records env (uploaded req))),
                 files = map file_entry_of (extraction_records env (uploaded req)),
                 error = Some (js ''No content could be extracted from the uploaded files. Details: ''
                                @ errorDetails (extraction_records env (uploaded req)))\<rparr>)"
  using assms
  by (auto simp: askWithFiles_def Let_def process_files_start truthy_def hasContent_def
           split: option.splits)

lemma analysis_line_of_upload:
  "analysis_line (fst (process_file env f)) =
     [0x2022] @ js '' '' @ file_name f @ js '' ('' @ template_str None @ js '', ''
       @ kilobytes_toFixed1 (file_size f) @ js ''KB): ''
       @ or_str (p_error (fst (process_file env f))) (js ''No text found'')"
  by (simp add: analysis_line_def process_file_def Let_def)

text \<open>
  Claim C3, as the code has it. When a credential for the answering service is
  configured, at least one file is uploaded and every file yields empty text, no image
  part exists, nothing is posted to the answering service, and the answer of the
  response is the synthesized diagnostic: fixed opening and closing text around one
  line per file, in upload order, that holds the file's name, its size in kilobytes
  with one decimal, and its recorded error or \<open>No text found\<close>.
\<close>

theorem C3_diagnostic_answer_with_credential:
  assumes key: "truthy (GEMINI_API_KEY env)"
    and up: "uploaded req = fs" and ne: "fs \<noteq> []"
    and empty: "\<forall>p \<in> set (extraction_records env fs). p_text p = []"
  shows "image_parts env fs = [] \<and>
    (\<exists>r. askWithFiles env req = ([], Ok200 r) \<and>
          answer r = Some (diagnostic_answer (extraction_records env fs))) \<and>
    (\<exists>intro outro. diagnostic_answer (extraction_records env fs)
        = intro @ join (js [CHR 0x0A]) (map analysis_line (extraction_records env fs)) @ outro) \<and>
    length (map analysis_line (extraction_records env fs)) = length fs \<and>
    (\<forall>i < length fs. \<exists>ty.
        map analysis_line (extraction_records env fs) ! i
          = [0x2022] @ js '' '' @ file_name (fs ! i) @ js '' ('' @ ty @ js '', ''
              @ kilobytes_toFixed1 (file_size (fs ! i)) @ js ''KB): ''
              @ or_str (p_error (extraction_records env fs ! i)) (js ''No text found''))"
proof -
  have i: "image_parts env fs = []"
    using empty by (rule no_text_no_images)
  have c: "combined_text (extraction_records env fs) = []"
    using empty by (rule no_text_no_aggregate)
  then have t: "trim (combined_text (extraction_records env (uploaded req))) = []"
    by (simp add: up trim_def)
  from ne up have u: "uploaded req \<noteq> []" by simp
  from i up have i': "image_parts env (uploaded req) = []" by simp
  have a: "\<exists>r. askWithFiles env req = ([], Ok200 r) \<and>
          answer r = Some (diagnostic_answer (extraction_records env fs))"
    using askWithFiles_no_content[OF key u t i'] by (simp add: up)
  have d: "\<exists>intro outro. diagnostic_answer (extraction_records env fs)
        = intro @ join (js [CHR 0x0A]) (map analysis_line (extraction_records env fs)) @ outro"
    unfolding diagnostic_answer_def
    by (metis append.assoc)
  have l: "length (map analysis_line (extraction_records env fs)) = length fs"
    by (simp add: extraction_records_map)
  have n: "\<exists>ty. map analysis_line (extraction_records env fs) ! i
          = [0x2022] @ js '' '' @ file_name (fs ! i) @ js '' ('' @ ty @ js '', ''
              @ kilobytes_toFixed1 (file_size (fs ! i)) @ js ''KB): ''
              @ or_str (p_error (extraction_records env fs ! i)) (js ''No text found'')"
    if "i < length fs" for i
  proof -
    from that have "extraction_records env fs ! i = fst (process_file env (fs ! i))"
      by (simp add: extraction_records_map)
    moreover from that have "map analysis_line (extraction_records env fs) ! i
      = analysis_line (extraction_records env fs ! i)"
      by (simp add: extraction_records_map)
    ultimately show ?thesis
      using analysis_line_of_upload[of env "fs ! i"] by (metis)
  qed
  from i a d l n show ?thesis by blast
qed

theorem C3_counterexample:
  "extraction_records offline_env (uploaded broken_pdf_request) = [broken_pdf_part] \<and>
   p_text broken_pdf_part = [] \<and>
   image_parts offline_env (uploaded broken_pdf_request) = [] \<and>
   askWithFiles offline_env broken_pdf_request =
     ([], Ok200 \<lparr>extracted = [], answer = None,
                 files = [\<lparr>f_name = js ''report.pdf'', f_type = js ''pdf'', f_size = 6,
                           f_textLength = 0, f_error = Some broken_pdf_message\<rparr>],
                 error = None\<rparr>)"
proof -
  have up: "uploaded broken_pdf_request = [broken_pdf_file]"
    by (simp add: uploaded_def broken_pdf_request_def)
  have recs: "extraction_records offline_env (uploaded broken_pdf_request) = [broken_pdf_part]"
    by (simp add: up extraction_records_map broken_pdf_record)
  have imgs: "image_parts offline_env (uploaded broken_pdf_request) = []"
    by (simp add: up image_parts_concat broken_pdf_record)
  have t: "p_text broken_pdf_part = []"
    by (simp add: broken_pdf_part_def)
  have c: "combined_text [broken_pdf_part] = []"
    by (simp add: combined_text_def broken_pdf_not_retained)
  have "askWithFiles offline_env broken_pdf_request =
     ([], Ok200 \<lparr>extracted = [], answer = None,
                 files = [\<lparr>f_name = js ''report.pdf'', f_type = js ''pdf'', f_size = 6,
                           f_textLength = 0, f_error = Some broken_pdf_message\<rparr>],
                 error = None\<rparr>)"
    using askWithFiles_no_key[OF offline_no_key, of broken_pdf_request]
    unfolding recs by (simp add: up c broken_pdf_entry)
  with recs imgs t show ?thesis by blast
qed

lemma keyed_truthy: "truthy (GEMINI_API_KEY keyed_env)"
  by (simp add: keyed_env_def truthy_def js_def)

theorem C3_witness:
  "truthy (GEMINI_API_KEY keyed_env) \<and>
   uploaded broken_pdf_request = [broken_pdf_file] \<and>
   extraction_records keyed_env [broken_pdf_file] = [broken_pdf_part] \<and>
   p_text broken_pdf_part = [] \<and>
   image_parts keyed_env [broken_pdf_file] = [] \<and>
   (\<exists>r. askWithFiles keyed_env broken_pdf_request = ([], Ok200 r) \<and>
        answer r = Some (diagnostic_answer [broken_pdf_part])) \<and>
   (\<exists>ty. analysis_line broken_pdf_part
           = [0x2022] @ js '' report.pdf ('' @ ty @ js '', 0.0KB): '' @ broken_pdf_message)"
proof -
  have up: "uploaded broken_pdf_request = [broken_pdf_file]"
    by (simp add: uploaded_def broken_pdf_request_def)
  have recs: "extraction_records keyed_env [broken_pdf_file] = [broken_pdf_part]"
    by (simp add: extraction_records_map broken_pdf_record)
  have t: "p_text broken_pdf_part = []"
    by (simp add: broken_pdf_part_def)
  have e: "\<forall>p \<in> set (extraction_records keyed_env [broken_pdf_file]). p_text p = []"
    by (simp add: recs t)
  note c3 = C3_diagnostic_answer_with_credential[OF keyed_truthy up _ e, unfolded recs]
  have ne: "[broken_pdf_file] \<noteq> []" by simp
  from c3[OF ne] have i: "image_parts keyed_env [broken_pdf_file] = []"
    and a: "\<exists>r. askWithFiles keyed_env broken_pdf_request = ([], Ok200 r) \<and>
        answer r = Some (diagnostic_answer [broken_pdf_part])"
    and l: "\<forall>i < length [broken_pdf_file]. \<exists>ty.
        map analysis_line [broken_pdf_part] ! i
          = [0x2022] @ js '' '' @ file_name ([broken_pdf_file] ! i) @ js '' ('' @ ty @ js '', ''
              @ kilobytes_toFixed1 (file_size ([broken_pdf_file] ! i)) @ js ''KB): ''
              @ or_str (p_error ([broken_pdf_part] ! i)) (js ''No text found'')"
    by blast+
  from l have "\<exists>ty. analysis_line broken_pdf_part
          = [0x2022] @ js '' '' @ file_name broken_pdf_file @ js '' ('' @ ty @ js '', ''
              @ kilobytes_toFixed1 (file_size broken_pdf_file) @ js ''KB): ''
              @ or_str (p_error broken_pdf_part) (js ''No text found'')"
    by simp
  then obtain ty where "analysis_line broken_pdf_part
          = [0x2022] @ js '' '' @ file_name broken_pdf_file @ js '' ('' @ ty @ js '', ''
              @ kilobytes_toFixed1 (file_size broken_pdf_file) @ js ''KB): ''
              @ or_str (p_error broken_pdf_part) (js ''No text found'')"
    by blast
  moreover have "file_name broken_pdf_file = js ''report.pdf''"
    by (simp add: broken_pdf_file_def file_name_def or_else_def or_str_def truthy_def js_def)
  moreover have "kilobytes_toFixed1 (file_size broken_pdf_file) = js ''0.0''"
    by (simp add: broken_pdf_file_def file_size_def kilobytes_toFixed1_def ascii_bytes_def
        js_def)
  moreover have "or_str (p_error broken_pdf_part) (js ''No text found'') = broken_pdf_message"
    by (simp add: broken_pdf_part_def or_str_def broken_pdf_message_def js_def)
  ultimately have "analysis_line broken_pdf_part
           = [0x2022] @ js '' report.pdf ('' @ ty @ js '', 0.0KB): '' @ broken_pdf_message"
    by (simp add: js_def)
  then have "\<exists>ty. analysis_line broken_pdf_part
           = [0x2022] @ js '' report.pdf ('' @ ty @ js '', 0.0KB): '' @ broken_pdf_message"
    by blast
  with keyed_truthy up recs t i a show ?thesis by blast
qed

section \<open>The OCR fallback chain never throws\<close>

lemma tesseractOcr_result:
  "tesseractOcr env buf =
     ([LocalOcr buf],
      Inr (case Tesseract_recognize env buf of Inl err \<Rightarrow> [] | Inr t \<Rightarrow> or_str t []))"
  by (simp add: tesseractOcr_def try_catch_def split: sum.splits)

lemma extractText_no_key:
  "\<not> truthy (OCR_SPACE_API_KEY env) \<Longrightarrow> extractText env buf fname = tesseractOcr env buf"
  by (auto simp: extractText_def truthy_def split: option.splits)

lemma extractText_keyed:
  assumes "OCR_SPACE_API_KEY env = Some k" and "k \<noteq> []"
  shows "extractText env buf fname =
     (case fetch_ocr_space env k buf fname of
        Inl err \<Rightarrow> ([HostedOcr k buf fname, LocalOcr buf], snd (tesseractOcr env buf))
      | Inr res \<Rightarrow>
          (case json res of
             Inl err \<Rightarrow> ([HostedOcr k buf fname, LocalOcr buf], snd (tesseractOcr env buf))
           | Inr data \<Rightarrow>
               (case parsed_text data of
                  Inl err \<Rightarrow> ([HostedOcr k buf fname, LocalOcr buf], snd (tesseractOcr env buf))
                | Inr None \<Rightarrow> ([HostedOcr k buf fname, LocalOcr buf], snd (tesseractOcr env buf))
                | Inr (Some t) \<Rightarrow> ([HostedOcr k buf fname], Inr t))))"
  using assms
  by (simp add: extractText_def try_catch_def after_calls_def tesseractOcr_result
           split: sum.splits option.splits)

lemma parsed_text_null_entry:
  assumes "ParsedResults d = Some rs" and "None \<in> set rs"
  shows "parsed_text (Some d) = Inr None \<or> (\<exists>err. parsed_text (Some d) = Inl err)"
proof (cases rs)
  case Nil
  with assms show ?thesis by simp
next
  case (Cons r rs')
  show ?thesis
  proof (cases r)
    case None
    with Cons assms show ?thesis
      by (simp add: parsed_text_def)
  next
    case (Some q)
    with Cons assms have "\<not> list_all (\<lambda>p. p \<noteq> None) rs'"
      by (auto simp: list_all_iff)
    with Some Cons assms show ?thesis
      by (simp add: parsed_text_def)
  qed
qed

lemma parsed_text_blank:
  assumes "ParsedResults d = Some rs"
    and "\<forall>c \<in> set (join (js [CHR 0x0A])
                       (map (\<lambda>p. case p of None \<Rightarrow> [] | Some q \<Rightarrow> or_str (ParsedText q) [])
                            rs)). is_space c"
  shows "parsed_text (Some d) = Inr None \<or> (\<exists>err. parsed_text (Some d) = Inl err)"
proof (cases rs)
  case Nil
  with assms show ?thesis by (simp add: parsed_text_def)
next
  case (Cons r rs')
  show ?thesis
  proof (cases r)
    case None
    with Cons assms show ?thesis
      by (simp add: parsed_text_def)
  next
    case (Some q)
    from assms(2) have
      "trim (join (js [CHR 0x0A])
               (map (\<lambda>p. case p of None \<Rightarrow> [] | Some q \<Rightarrow> or_str (ParsedText q) []) rs)) = []"
      by (simp only: trim_Nil_iff)
    with Some Cons assms(1) show ?thesis
      by (simp add: parsed_text_def Let_def)
  qed
qed

lemma parsed_text_usable:
  assumes "ParsedResults d = Some rs" and "None \<notin> set rs"
    and "\<exists>c \<in> set (join (js [CHR 0x0A])
                       (map (\<lambda>p. case p of None \<Rightarrow> [] | Some q \<Rightarrow> or_str (ParsedText q) [])
                            rs)). \<not> is_space c"
  shows "parsed_text (Some d) =
           Inr (Some (join (js [CHR 0x0A])
                        (map (\<lambda>p. case p of None \<Rightarrow> [] | Some q \<Rightarrow> or_str (ParsedText q) [])
                             rs)))"
proof (cases rs)
  case Nil
  with assms show ?thesis by simp
next
  case (Cons r rs')
  with assms(2) have nn: "None \<notin> set rs'"
    by simp
  obtain q where q: "r = Some q"
  proof (cases r)
    case None
    with Cons assms(2) show ?thesis by simp
  next
    case (Some q)
    then show ?thesis by (rule that)
  qed
  from nn have all: "list_all (\<lambda>p. p \<noteq> None) rs'"
    unfolding list_all_iff by metis
  let ?t = "join (js [CHR 0x0A])
              (map (\<lambda>p. case p of None \<Rightarrow> [] | Some q \<Rightarrow> or_str (ParsedText q) []) rs)"
  from assms(3) have "trim ?t \<noteq> []"
    unfolding trim_Nil_iff by blast
  moreover from assms(3) have "?t \<noteq> []"
    by auto
  ultimately show ?thesis
    using q all Cons assms(1) by (simp add: parsed_text_def Let_def)
qed

text \<open>
  Claim C4. For every buffer the OCR chain returns a string and never throws. The
  local engine step makes one local call and returns the engine's text, or the empty
  string when the engine fails or gives no text. Without a hosted-service credential
  the chain is exactly the local step, with no hosted call. With a credential, the
  chain makes the hosted call, then the local call, and returns the local result
  when the hosted call fails in transport, when its response is not valid JSON, and
  when the parsed response is empty: no data, no parsed results, an empty list of
  them, a \<open>null\<close> entry among them, or texts that joined by line feeds are empty
  or white space only. In the one remaining case, entries without \<open>null\<close> whose
  joined text has a character that is not white space, it returns that joined text
  after the hosted call alone.
\<close>

theorem C4_ocr_chain_total:
  "(\<exists>calls t. extractText env buf fname = (calls, Inr t)) \<and>
   tesseractOcr env buf =
     ([LocalOcr buf],
      Inr (case Tesseract_recognize env buf of Inl err \<Rightarrow> [] | Inr t \<Rightarrow> or_str t [])) \<and>
   (\<not> truthy (OCR_SPACE_API_KEY env) \<longrightarrow>
      extractText env buf fname = tesseractOcr env buf) \<and>
   (\<forall>k. OCR_SPACE_API_KEY env = Some k \<and> k \<noteq> [] \<and>
        ((\<exists>err. fetch_ocr_space env k buf fname = Inl err) \<or>
         (\<exists>res err. fetch_ocr_space env k buf fname = Inr res \<and> json res = Inl err) \<or>
         (\<exists>res data. fetch_ocr_space env k buf fname = Inr res \<and> json res = Inr data \<and>
            (\<forall>t. parsed_text data \<noteq> Inr (Some t))))
      \<longrightarrow> extractText env buf fname
            = ([HostedOcr k buf fname, LocalOcr buf], snd (tesseractOcr env buf))) \<and>
   parsed_text None = Inr None \<and>
   (ParsedResults d = None \<or> ParsedResults d = Some [] \<longrightarrow> parsed_text (Some d) = Inr None) \<and>
   (\<forall>k res data. OCR_SPACE_API_KEY env = Some k \<and> k \<noteq> [] \<and>
        fetch_ocr_space env k buf fname = Inr res \<and> json res = Inr data \<and>
        (data = None \<or>
         (\<exists>dat. data = Some dat \<and>
            (ParsedResults dat = None \<or>
             (\<exists>rs. ParsedResults dat = Some rs \<and>
                (None \<in> set rs \<or>
                 (\<forall>c \<in> set (join (js [CHR 0x0A])
                                (map (\<lambda>p. case p of None \<Rightarrow> []
                                           | Some q \<Rightarrow> or_str (ParsedText q) []) rs)).
                    is_space c))))))
      \<longrightarrow> extractText env buf fname
            = ([HostedOcr k buf fname, LocalOcr buf], snd (tesseractOcr env buf))) \<and>
   (\<forall>k res dat rs. OCR_SPACE_API_KEY env = Some k \<and> k \<noteq> [] \<and>
        fetch_ocr_space env k buf fname = Inr res \<and> json res = Inr (Some dat) \<and>
        ParsedResults dat = Some rs \<and> None \<notin> set rs \<and>
        (\<exists>c \<in> set (join (js [CHR 0x0A])
                       (map (\<lambda>p. case p of None \<Rightarrow> []
                                  | Some q \<Rightarrow> or_str (ParsedText q) []) rs)).
           \<not> is_space c)
      \<longrightarrow> extractText env buf fname
            = ([HostedOcr k buf fname],
               Inr (join (js [CHR 0x0A])
                      (map (\<lambda>p. case p of None \<Rightarrow> []
                                 | Some q \<Rightarrow> or_str (ParsedText q) []) rs))))"
proof -
  have total: "\<exists>calls t. extractText env buf fname = (calls, Inr t)"
  proof (cases "truthy (OCR_SPACE_API_KEY env)")
    case False
    then show ?thesis
      by (simp add: extractText_no_key tesseractOcr_result)
  next
    case True
    then obtain k where "OCR_SPACE_API_KEY env = Some k" and "k \<noteq> []"
      by (auto simp: truthy_def split: option.splits)
    then show ?thesis
      by (simp add: extractText_keyed tesseractOcr_result split: sum.splits option.splits)
  qed
  have fallback: "extractText env buf fname
            = ([HostedOcr k buf fname, LocalOcr buf], snd (tesseractOcr env buf))"
    if "OCR_SPACE_API_KEY env = Some k" and "k \<noteq> []"
      and "(\<exists>err. fetch_ocr_space env k buf fname = Inl err) \<or>
         (\<exists>res err. fetch_ocr_space env k buf fname = Inr res \<and> json res = Inl err) \<or>
         (\<exists>res data. fetch_ocr_space env k buf fname = Inr res \<and> json res = Inr data \<and>
            (\<forall>t. parsed_text data \<noteq> Inr (Some t)))" for k
    using that(3)
    by (auto simp: extractText_keyed[OF that(1,2)] split: sum.splits option.splits)
  have p0: "parsed_text None = Inr None"
    by (simp add: parsed_text_def)
  have p1: "ParsedResults d = None \<or> ParsedResults d = Some [] \<Longrightarrow> parsed_text (Some d) = Inr None"
    by (auto simp: parsed_text_def)
  have unusable: "extractText env buf fname
            = ([HostedOcr k buf fname, LocalOcr buf], snd (tesseractOcr env buf))"
    if k: "OCR_SPACE_API_KEY env = Some k" "k \<noteq> []"
      and f: "fetch_ocr_space env k buf fname = Inr res" and j: "json res = Inr data"
      and c: "data = None \<or>
         (\<exists>dat. data = Some dat \<and>
            (ParsedResults dat = None \<or>
             (\<exists>rs. ParsedResults dat = Some rs \<and>
                (None \<in> set rs \<or>
                 (\<forall>c \<in> set (join (js [CHR 0x0A])
                                (map (\<lambda>p. case p of None \<Rightarrow> []
                                           | Some q \<Rightarrow> or_str (ParsedText q) []) rs)).
                    is_space c)))))" for k res data
  proof -
    from c have "parsed_text data = Inr None \<or> (\<exists>err. parsed_text data = Inl err)"
    proof (elim disjE exE conjE)
      assume "data = None"
      then show ?thesis by (simp add: parsed_text_def)
    next
      fix dat assume "data = Some dat" "ParsedResults dat = None"
      then show ?thesis by (simp add: parsed_text_def)
    next
      fix dat rs assume "data = Some dat" "ParsedResults dat = Some rs" "None \<in> set rs"
      then show ?thesis using parsed_text_null_entry by blast
    next
      fix dat rs assume "data = Some dat" "ParsedResults dat = Some rs"
        "\<forall>c \<in> set (join (js [CHR 0x0A])
                                (map (\<lambda>p. case p of None \<Rightarrow> []
                                           | Some q \<Rightarrow> or_str (ParsedText q) []) rs)).
                    is_space c"
      then show ?thesis using parsed_text_blank by blast
    qed
    then have "\<forall>t. parsed_text data \<noteq> Inr (Some t)"
      by auto
    with f j have "\<exists>res data. fetch_ocr_space env k buf fname = Inr res \<and> json res = Inr data \<and>
            (\<forall>t. parsed_text data \<noteq> Inr (Some t))"
      by blast
    with fallback[OF k] show ?thesis by blast
  qed
  have usable: "extractText env buf fname
            = ([HostedOcr k buf fname],
               Inr (join (js [CHR 0x0A])
                      (map (\<lambda>p. case p of None \<Rightarrow> []
                                 | Some q \<Rightarrow> or_str (ParsedText q) []) rs)))"
    if k: "OCR_SPACE_API_KEY env = Some k" "k \<noteq> []"
      and f: "fetch_ocr_space env k buf fname = Inr res" and j: "json res = Inr (Some dat)"
      and r: "ParsedResults dat = Some rs" "None \<notin> set rs"
        "\<exists>c \<in> set (join (js [CHR 0x0A])
                       (map (\<lambda>p. case p of None \<Rightarrow> []
                                  | Some q \<Rightarrow> or_str (ParsedText q) []) rs)).
           \<not> is_space c" for k res dat rs
    by (simp add: extractText_keyed[OF k] f j parsed_text_usable[OF r])
  from total fallback p0 p1 tesseractOcr_result[of env buf] extractText_no_key[of env buf fname]
  have old: "(\<exists>calls t. extractText env buf fname = (calls, Inr t)) \<and>
   tesseractOcr env buf =
     ([LocalOcr buf],
      Inr (case Tesseract_recognize env buf of Inl err \<Rightarrow> [] | Inr t \<Rightarrow> or_str t [])) \<and>
   (\<not> truthy (OCR_SPACE_API_KEY env) \<longrightarrow>
      extractText env buf fname = tesseractOcr env buf) \<and>
   (\<forall>k. OCR_SPACE_API_KEY env = Some k \<and> k \<noteq> [] \<and>
        ((\<exists>err. fetch_ocr_space env k buf fname = Inl err) \<or>
         (\<exists>res err. fetch_ocr_space env k buf fname = Inr res \<and> json res = Inl err) \<or>
         (\<exists>res data. fetch_ocr_space env k buf fname = Inr res \<and> json res = Inr data \<and>
            (\<forall>t. parsed_text data \<noteq> Inr (Some t))))
      \<longrightarrow> extractText env buf fname
            = ([HostedOcr k buf fname, LocalOcr buf], snd (tesseractOcr env buf))) \<and>
   parsed_text None = Inr None \<and>
   (ParsedResults d = None \<or> ParsedResults d = Some [] \<longrightarrow> parsed_text (Some d) = Inr None)"
    by blast
  from unusable have u: "\<forall>k res data. OCR_SPACE_API_KEY env = Some k \<and> k \<noteq> [] \<and>
        fetch_ocr_space env k buf fname = Inr res \<and> json res = Inr data \<and>
        (data = None \<or>
         (\<exists>dat. data = Some dat \<and>
            (ParsedResults dat = None \<or>
             (\<exists>rs. ParsedResults dat = Some rs \<and>
                (None \<in> set rs \<or>
                 (\<forall>c \<in> set (join (js [CHR 0x0A])
                                (map (\<lambda>p. case p of None \<Rightarrow> []
                                           | Some q \<Rightarrow> or_str (ParsedText q) []) rs)).
                    is_space c))))))
      \<longrightarrow> extractText env buf fname
            = ([HostedOcr k buf fname, LocalOcr buf], snd (tesseractOcr env buf))"
    by (intro allI impI) (elim conjE, rule unusable)
  from usable have v: "\<forall>k res dat rs. OCR_SPACE_API_KEY env = Some k \<and> k \<noteq> [] \<and>
        fetch_ocr_space env k buf fname = Inr res \<and> json res = Inr (Some dat) \<and>
        ParsedResults dat = Some rs \<and> None \<notin> set rs \<and>
        (\<exists>c \<in> set (join (js [CHR 0x0A])
                       (map (\<lambda>p. case p of None \<Rightarrow> []
                                  | Some q \<Rightarrow> or_str (ParsedText q) []) rs)).
           \<not> is_space c)
      \<longrightarrow> extractText env buf fname
            = ([HostedOcr k buf fname],
               Inr (join (js [CHR 0x0A])
                      (map (\<lambda>p. case p of None \<Rightarrow> []
                                 | Some q \<Rightarrow> or_str (ParsedText q) []) rs)))"
    by (intro allI impI) (elim conjE, rule usable)
  from old u v show ?thesis
    by (intro conjI) (elim conjE, assumption)+
qed

lemma hosted_key:
  "OCR_SPACE_API_KEY hosted_down_env = Some (js ''K81'')"
  "OCR_SPACE_API_KEY blank_ocr_env = Some (js ''K81'')"
  "OCR_SPACE_API_KEY null_entry_ocr_env = Some (js ''K81'')"
  "OCR_SPACE_API_KEY hosted_ok_env = Some (js ''K81'')"
  by (simp_all add: hosted_down_env_def blank_ocr_env_def null_entry_ocr_env_def
      hosted_ok_env_def)

lemma local_reads:
  "snd (tesseractOcr hosted_down_env buf) = Inr (js ''local text'')"
  "snd (tesseractOcr blank_ocr_env buf) = Inr (js ''local text'')"
  "snd (tesseractOcr null_entry_ocr_env buf) = Inr (js ''local text'')"
  by (simp_all add: tesseractOcr_result hosted_down_env_def blank_ocr_env_def
      null_entry_ocr_env_def offline_env_def or_str_def js_def)

theorem C4_witness:
  "OCR_SPACE_API_KEY hosted_down_env = Some (js ''K81'') \<and> js ''K81'' \<noteq> [] \<and>
   fetch_ocr_space hosted_down_env (js ''K81'') [0x01] (js ''scan.png'')
     = Inl (JsError (Some (js ''ECONNREFUSED''))) \<and>
   extractText hosted_down_env [0x01] (js ''scan.png'')
     = ([HostedOcr (js ''K81'') [0x01] (js ''scan.png''), LocalOcr [0x01]],
        Inr (js ''local text'')) \<and>
   \<not> truthy (OCR_SPACE_API_KEY offline_env) \<and>
   extractText offline_env [0x01] (js ''scan.png'') = ([LocalOcr [0x01]], Inr []) \<and>
   extractText blank_ocr_env [0x01] (js ''scan.png'')
     = ([HostedOcr (js ''K81'') [0x01] (js ''scan.png''), LocalOcr [0x01]],
        Inr (js ''local text'')) \<and>
   extractText null_entry_ocr_env [0x01] (js ''scan.png'')
     = ([HostedOcr (js ''K81'') [0x01] (js ''scan.png''), LocalOcr [0x01]],
        Inr (js ''local text'')) \<and>
   extractText hosted_ok_env [0x01] (js ''scan.png'')
     = ([HostedOcr (js ''K81'') [0x01] (js ''scan.png'')],
        Inr (js ''page one'' @ js [CHR 0x0A] @ js ''page two''))"
proof -
  have kn: "js ''K81'' \<noteq> []"
    by (simp add: js_def)
  have f: "fetch_ocr_space hosted_down_env (js ''K81'') [0x01] (js ''scan.png'')
     = Inl (JsError (Some (js ''ECONNREFUSED'')))"
    by (simp add: hosted_down_env_def offline_env_def)
  have n: "\<not> truthy (OCR_SPACE_API_KEY offline_env)"
    by (simp add: offline_env_def truthy_def)
  note c4 = C4_ocr_chain_total[of hosted_down_env "[0x01]" "js ''scan.png''"]
  note c4' = C4_ocr_chain_total[of offline_env "[0x01]" "js ''scan.png''"]
  from c4 hosted_key(1) kn f have "extractText hosted_down_env [0x01] (js ''scan.png'')
     = ([HostedOcr (js ''K81'') [0x01] (js ''scan.png''), LocalOcr [0x01]],
        snd (tesseractOcr hosted_down_env [0x01]))"
    by blast
  then have down: "extractText hosted_down_env [0x01] (js ''scan.png'')
     = ([HostedOcr (js ''K81'') [0x01] (js ''scan.png''), LocalOcr [0x01]],
        Inr (js ''local text''))"
    by (simp only: local_reads)
  from c4' n have "extractText offline_env [0x01] (js ''scan.png'')
     = tesseractOcr offline_env [0x01]"
    by blast
  moreover from c4' have "tesseractOcr offline_env [0x01] = ([LocalOcr [0x01]], Inr [])"
    by (simp add: offline_env_def)
  ultimately have off: "extractText offline_env [0x01] (js ''scan.png'') = ([LocalOcr [0x01]], Inr [])"
    by simp
  note unusable = C4_ocr_chain_total[THEN conjunct2, THEN conjunct2, THEN conjunct2, THEN conjunct2,
      THEN conjunct2, THEN conjunct2, THEN conjunct1, rule_format]
  note usable = C4_ocr_chain_total[THEN conjunct2, THEN conjunct2, THEN conjunct2, THEN conjunct2,
      THEN conjunct2, THEN conjunct2, THEN conjunct2, rule_format]
  have "extractText blank_ocr_env [0x01] (js ''scan.png'')
     = ([HostedOcr (js ''K81'') [0x01] (js ''scan.png''), LocalOcr [0x01]],
        snd (tesseractOcr blank_ocr_env [0x01]))"
  proof (rule unusable, intro conjI)
    show "OCR_SPACE_API_KEY blank_ocr_env = Some (js ''K81'')"
      by (rule hosted_key)
    show "js ''K81'' \<noteq> []"
      by (rule kn)
    show "fetch_ocr_space blank_ocr_env (js ''K81'') [0x01] (js ''scan.png'')
      = Inr (FetchResponse
             (Inr (Some \<lparr>ParsedResults = Some [Some \<lparr>ParsedText = Some (js '' '')\<rparr>],
                         ErrorMessage = None\<rparr>)))"
      by (simp add: blank_ocr_env_def)
    show "json (FetchResponse
             (Inr (Some \<lparr>ParsedResults = Some [Some \<lparr>ParsedText = Some (js '' '')\<rparr>],
                         ErrorMessage = None\<rparr>)))
          = Inr (Some \<lparr>ParsedResults = Some [Some \<lparr>ParsedText = Some (js '' '')\<rparr>],
                         ErrorMessage = None\<rparr>)"
      by simp
    show "Some \<lparr>ParsedResults = Some [Some \<lparr>ParsedText = Some (js '' '')\<rparr>],
                 ErrorMessage = None\<rparr> = None \<or>
         (\<exists>dat. Some \<lparr>ParsedResults = Some [Some \<lparr>ParsedText = Some (js '' '')\<rparr>],
                 ErrorMessage = None\<rparr> = Some dat \<and>
            (ParsedResults dat = None \<or>
             (\<exists>rs. ParsedResults dat = Some rs \<and>
                (None \<in> set rs \<or>
                 (\<forall>c \<in> set (join (js [CHR 0x0A])
                                (map (\<lambda>p. case p of None \<Rightarrow> []
                                           | Some q \<Rightarrow> or_str (ParsedText q) []) rs)).
                    is_space c)))))"
      by (simp add: or_str_def js_def is_space_def)
  qed
  then have blank: "extractText blank_ocr_env [0x01] (js ''scan.png'')
     = ([HostedOcr (js ''K81'') [0x01] (js ''scan.png''), LocalOcr [0x01]],
        Inr (js ''local text''))"
    by (simp only: local_reads)
  have "extractText null_entry_ocr_env [0x01] (js ''scan.png'')
     = ([HostedOcr (js ''K81'') [0x01] (js ''scan.png''), LocalOcr [0x01]],
        snd (tesseractOcr null_entry_ocr_env [0x01]))"
  proof (rule unusable, intro conjI)
    show "OCR_SPACE_API_KEY null_entry_ocr_env = Some (js ''K81'')"
      by (rule hosted_key)
    show "js ''K81'' \<noteq> []"
      by (rule kn)
    show "fetch_ocr_space null_entry_ocr_env (js ''K81'') [0x01] (js ''scan.png'')
      = Inr (FetchResponse
             (Inr (Some \<lparr>ParsedResults = Some [Some \<lparr>ParsedText = Some (js ''page one'')\<rparr>, None],
                         ErrorMessage = None\<rparr>)))"
      by (simp add: null_entry_ocr_env_def)
    show "json (FetchResponse
             (Inr (Some \<lparr>ParsedResults = Some [Some \<lparr>ParsedText = Some (js ''page one'')\<rparr>, None],
                         ErrorMessage = None\<rparr>)))
          = Inr (Some \<lparr>ParsedResults = Some [Some \<lparr>ParsedText = Some (js ''page one'')\<rparr>, None],
                         ErrorMessage = None\<rparr>)"
      by simp
    show "Some \<lparr>ParsedResults = Some [Some \<lparr>ParsedText = Some (js ''page one'')\<rparr>, None],
                 ErrorMessage = None\<rparr> = None \<or>
         (\<exists>dat. Some \<lparr>ParsedResults = Some [Some \<lparr>ParsedText = Some (js ''page one'')\<rparr>, None],
                 ErrorMessage = None\<rparr> = Some dat \<and>
            (ParsedResults dat = None \<or>
             (\<exists>rs. ParsedResults dat = Some rs \<and>
                (None \<in> set rs \<or>
                 (\<forall>c \<in> set (join (js [CHR 0x0A])
                                (map (\<lambda>p. case p of None \<Rightarrow> []
                                           | Some q \<Rightarrow> or_str (ParsedText q) []) rs)).
                    is_space c)))))"
      by simp
  qed
  then have null: "extractText null_entry_ocr_env [0x01] (js ''scan.png'')
     = ([HostedOcr (js ''K81'') [0x01] (js ''scan.png''), LocalOcr [0x01]],
        Inr (js ''local text''))"
    by (simp only: local_reads)
  have "extractText hosted_ok_env [0x01] (js ''scan.png'')
     = ([HostedOcr (js ''K81'') [0x01] (js ''scan.png'')],
        Inr (join (js [CHR 0x0A])
               (map (\<lambda>p. case p of None \<Rightarrow> [] | Some q \<Rightarrow> or_str (ParsedText q) [])
                    [Some \<lparr>ParsedText = Some (js ''page one'')\<rparr>,
                     Some \<lparr>ParsedText = Some (js ''page two'')\<rparr>])))"
  proof (rule usable, intro conjI)
    show "OCR_SPACE_API_KEY hosted_ok_env = Some (js ''K81'')"
      by (rule hosted_key)
    show "js ''K81'' \<noteq> []"
      by (rule kn)
    show "fetch_ocr_space hosted_ok_env (js ''K81'') [0x01] (js ''scan.png'')
      = Inr (FetchResponse
             (Inr (Some \<lparr>ParsedResults = Some [Some \<lparr>ParsedText = Some (js ''page one'')\<rparr>,
                                                  Some \<lparr>ParsedText = Some (js ''page two'')\<rparr>],
                         ErrorMessage = None\<rparr>)))"
      by (simp add: hosted_ok_env_def)
    show "json (FetchResponse
             (Inr (Some \<lparr>ParsedResults = Some [Some \<lparr>ParsedText = Some (js ''page one'')\<rparr>,
                                                  Some \<lparr>ParsedText = Some (js ''page two'')\<rparr>],
                         ErrorMessage = None\<rparr>)))
          = Inr (Some \<lparr>ParsedResults = Some [Some \<lparr>ParsedText = Some (js ''page one'')\<rparr>,
                                                  Some \<lparr>ParsedText = Some (js ''page two'')\<rparr>],
                         ErrorMessage = None\<rparr>)"
      by simp
    show "ParsedResults \<lparr>ParsedResults = Some [Some \<lparr>ParsedText = Some (js ''page one'')\<rparr>,
                                                  Some \<lparr>ParsedText = Some (js ''page two'')\<rparr>],
                         ErrorMessage = None\<rparr>
          = Some [Some \<lparr>ParsedText = Some (js ''page one'')\<rparr>,
                  Some \<lparr>ParsedText = Some (js ''page two'')\<rparr>]"
      by simp
    show "None \<notin> set [Some \<lparr>ParsedText = Some (js ''page one'')\<rparr>,
                        Some \<lparr>ParsedText = Some (js ''page two'')\<rparr>]"
      by simp
    show "\<exists>c \<in> set (join (js [CHR 0x0A])
                       (map (\<lambda>p. case p of None \<Rightarrow> []
                                  | Some q \<Rightarrow> or_str (ParsedText q) [])
                            [Some \<lparr>ParsedText = Some (js ''page one'')\<rparr>,
                             Some \<lparr>ParsedText = Some (js ''page two'')\<rparr>])).
           \<not> is_space c"
      by (simp add: or_str_def js_def is_space_def)
  qed
  then have ok: "extractText hosted_ok_env [0x01] (js ''scan.png'')
     = ([HostedOcr (js ''K81'') [0x01] (js ''scan.png'')],
        Inr (js ''page one'' @ js [CHR 0x0A] @ js ''page two''))"
    by (simp add: or_str_def js_def)
  from hosted_key(1) kn f down n off blank null ok show ?thesis
    by blast
qed

end
